theory Spec2Isabelle
  imports Main
begin

section \<open>Strings and characters\<close>

text \<open>
  A JavaScript string is modelled as a \<^typ>\<open>string\<close>, one \<^typ>\<open>char\<close> per code unit;
  the model covers the strings whose code units are below 256.  The character classes are
  those of the regular expressions in \<^verbatim>\<open>timeUtils.ts\<close> and \<^verbatim>\<open>geminiService.ts\<close>:
  \<^verbatim>\<open>\d\<close> (ASCII digits), \<^verbatim>\<open>\s\<close> (white space and line terminators; below 256 these are
  TAB, LF, VT, FF, CR, SPACE and NBSP), the word characters that decide \<^verbatim>\<open>\b\<close>, and
  \<^verbatim>\<open>[\s\S]\<close> (every character).
\<close>

definition is_digit :: "char \<Rightarrow> bool" where
  "is_digit c = (c \<in> set ''0123456789'')"

definition is_space :: "char \<Rightarrow> bool" where
  "is_space c = (c \<in> set [CHR 0x09, CHR 0x0A, CHR 0x0B, CHR 0x0C, CHR 0x0D, CHR '' '', CHR 0xA0])"

definition is_word :: "char \<Rightarrow> bool" where
  "is_word c = (c \<in> set ''abcdefghijklmnopqrstuvwxyzABCDEFGHIJKLMNOPQRSTUVWXYZ0123456789_'')"

text \<open>
  \<^verbatim>\<open>String.prototype.toLowerCase\<close> on code units below 256: the ASCII capitals and the
  Latin-1 capitals \<^verbatim>\<open>0xC0..0xDE\<close> (without the multiplication sign \<^verbatim>\<open>0xD7\<close>) move up by 32.
\<close>

definition lower_char :: "char \<Rightarrow> char" where
  "lower_char c =
     (let n = (of_char c :: nat)
      in if (65 \<le> n \<and> n \<le> 90) \<or> (192 \<le> n \<and> n \<le> 222 \<and> n \<noteq> 215)
         then char_of (n + 32) else c)"

definition toLowerCase :: "string \<Rightarrow> string" where
  "toLowerCase s = map lower_char s"

text \<open>\<^verbatim>\<open>String.prototype.trim\<close>: white space is dropped at both ends.\<close>

definition trim :: "string \<Rightarrow> string" where
  "trim s = rev (dropWhile is_space (rev (dropWhile is_space s)))"

text \<open>
  The canonical form used by a pattern with the \<^verbatim>\<open>i\<close> flag (and without \<^verbatim>\<open>u\<close>): a
  character is compared through its upper case, and a character outside ASCII never
  becomes equal to an ASCII one.  Every literal of the patterns below is ASCII, so
  only the ASCII small letters are folded.
\<close>

definition canon :: "bool \<Rightarrow> char \<Rightarrow> char" where
  "canon icase c =
     (let n = (of_char c :: nat)
      in if icase \<and> 97 \<le> n \<and> n \<le> 122 then char_of (n - 32) else c)"

section \<open>Regular expressions\<close>

text \<open>
  The patterns of the source are values of \<open>rx\<close>; \<open>ms\<close> is a backtracking matcher
  that returns every way the pattern can match at the current position, in the order in
  which a backtracking engine tries them (greedy quantifiers longest first, alternatives
  left to right).  The first element is the match that JavaScript reports.  A matcher
  state is the input already passed (reversed), the input left, and the captures
  recorded so far.
\<close>

datatype cclass = Digit | Space | AnyChar

fun in_class :: "cclass \<Rightarrow> char \<Rightarrow> bool" where
  "in_class Digit c = is_digit c"
| "in_class Space c = is_space c"
| "in_class AnyChar c = True"

datatype rx =
    Lit string          \<comment> \<open>a literal text\<close>
  | Plus cclass         \<comment> \<open>\<^verbatim>\<open>\s+\<close>, \<^verbatim>\<open>\d+\<close>\<close>
  | Star cclass         \<comment> \<open>\<^verbatim>\<open>[\s\S]*\<close>\<close>
  | Rep nat cclass      \<comment> \<open>\<^verbatim>\<open>\d{4}\<close>\<close>
  | Seq rx rx
  | Alt rx rx
  | Grp rx              \<comment> \<open>a capturing group\<close>
  | WordB               \<comment> \<open>\<^verbatim>\<open>\b\<close>\<close>
  | Bol                 \<comment> \<open>\<^verbatim>\<open>^\<close>\<close>
  | Eol                 \<comment> \<open>\<^verbatim>\<open>$\<close>\<close>

type_synonym mstate = "string \<times> string \<times> string list"

fun star_cls :: "cclass \<Rightarrow> string \<Rightarrow> string \<Rightarrow> (string \<times> string) list" where
  "star_cls k p [] = [(p, [])]"
| "star_cls k p (x # xs) =
     (if in_class k x then star_cls k (x # p) xs @ [(p, x # xs)] else [(p, x # xs)])"

fun rep_cls :: "nat \<Rightarrow> cclass \<Rightarrow> string \<Rightarrow> string \<Rightarrow> (string \<times> string) list" where
  "rep_cls 0 k p r = [(p, r)]"
| "rep_cls (Suc n) k p [] = []"
| "rep_cls (Suc n) k p (x # xs) = (if in_class k x then rep_cls n k (x # p) xs else [])"

definition word_before :: "string \<Rightarrow> bool" where
  "word_before p = (case p of [] \<Rightarrow> False | c # _ \<Rightarrow> is_word c)"

fun ms :: "bool \<Rightarrow> rx \<Rightarrow> mstate \<Rightarrow> mstate list" where
  "ms i (Lit s) (p, r, c) =
     (if length s \<le> length r \<and> map (canon i) (take (length s) r) = map (canon i) s
      then [(rev (take (length s) r) @ p, drop (length s) r, c)] else [])"
| "ms i (Plus k) (p, r, c) =
     (case r of [] \<Rightarrow> []
      | x # xs \<Rightarrow> if in_class k x then map (\<lambda>(p', r'). (p', r', c)) (star_cls k (x # p) xs) else [])"
| "ms i (Star k) (p, r, c) = map (\<lambda>(p', r'). (p', r', c)) (star_cls k p r)"
| "ms i (Rep n k) (p, r, c) = map (\<lambda>(p', r'). (p', r', c)) (rep_cls n k p r)"
| "ms i (Seq a b) st = concat (map (ms i b) (ms i a st))"
| "ms i (Alt a b) st = ms i a st @ ms i b st"
| "ms i (Grp a) (p, r, c) =
     map (\<lambda>(p', r', c'). (p', r', c' @ [take (length r - length r') r])) (ms i a (p, r, c))"
| "ms i WordB (p, r, c) = (if word_before p \<noteq> word_before r then [(p, r, c)] else [])"
| "ms i Bol (p, r, c) = (if p = [] then [(p, r, c)] else [])"
| "ms i Eol (p, r, c) = (if r = [] then [(p, r, c)] else [])"

text \<open>
  \<^verbatim>\<open>String.prototype.match\<close> with a pattern without the \<^verbatim>\<open>g\<close> flag: the start positions
  are tried from the left, and the first position with a match gives the result, the
  matched text (\<^verbatim>\<open>match[0]\<close>) and the captures (\<^verbatim>\<open>match[1]\<close>, ...).  \<open>None\<close> is \<^verbatim>\<open>null\<close>.
\<close>

fun search :: "bool \<Rightarrow> rx \<Rightarrow> string \<Rightarrow> string \<Rightarrow> (string \<times> string list) option" where
  "search i re p [] =
     (case ms i re (p, [], []) of
        [] \<Rightarrow> None
      | (p', r', c) # _ \<Rightarrow> Some ([], c))"
| "search i re p (x # xs) =
     (case ms i re (p, x # xs, []) of
        [] \<Rightarrow> search i re (x # p) xs
      | (p', r', c) # _ \<Rightarrow> Some (take (length (x # xs) - length r') (x # xs), c))"

definition js_match :: "bool \<Rightarrow> rx \<Rightarrow> string \<Rightarrow> (string \<times> string list) option" where
  "js_match i re s = search i re [] s"

text \<open>\<^verbatim>\<open>RegExp.prototype.test\<close>.\<close>

definition js_test :: "bool \<Rightarrow> rx \<Rightarrow> string \<Rightarrow> bool" where
  "js_test i re s = (js_match i re s \<noteq> None)"

section \<open>timeUtils: detecting and extracting a relative time expression\<close>

text \<open>
  The alternation \<^verbatim>\<open>(minute|minutes|hour|hours|day|days|week|weeks|month|months|year|years)\<close>,
  in the order of the source.
\<close>

definition unit_alt :: rx where
  "unit_alt =
     Grp (Alt (Lit ''minute'') (Alt (Lit ''minutes'') (Alt (Lit ''hour'') (Alt (Lit ''hours'')
         (Alt (Lit ''day'') (Alt (Lit ''days'') (Alt (Lit ''week'') (Alt (Lit ''weeks'')
         (Alt (Lit ''month'') (Alt (Lit ''months'') (Alt (Lit ''year'') (Lit ''years''))))))))))))"

text \<open>\<^verbatim>\<open>/\bin\s+\d+\s+(minute|...|years)\b/i\<close>\<close>

definition rx_in_n_unit :: rx where
  "rx_in_n_unit =
     Seq WordB (Seq (Lit ''in'') (Seq (Plus Space) (Seq (Plus Digit) (Seq (Plus Space)
         (Seq unit_alt WordB)))))"

text \<open>\<^verbatim>\<open>/\b\d+\s+(minute|...|years)\s+from\s+now\b/i\<close>\<close>

definition rx_n_unit_from_now :: rx where
  "rx_n_unit_from_now =
     Seq WordB (Seq (Plus Digit) (Seq (Plus Space) (Seq unit_alt (Seq (Plus Space)
         (Seq (Lit ''from'') (Seq (Plus Space) (Seq (Lit ''now'') WordB)))))))"

text \<open>\<^verbatim>\<open>/\b(tomorrow|next\s+week|next\s+month|next\s+year)\b/i\<close>\<close>

definition rx_qualitative :: rx where
  "rx_qualitative =
     Seq WordB (Seq (Grp (Alt (Lit ''tomorrow'')
         (Alt (Seq (Lit ''next'') (Seq (Plus Space) (Lit ''week'')))
         (Alt (Seq (Lit ''next'') (Seq (Plus Space) (Lit ''month'')))
              (Seq (Lit ''next'') (Seq (Plus Space) (Lit ''year''))))))) WordB)"

text \<open>\<^verbatim>\<open>relativeTimePatterns.some(pattern => pattern.test(text))\<close>\<close>

definition hasRelativeTimeExpression :: "string \<Rightarrow> bool" where
  "hasRelativeTimeExpression text =
     list_ex (\<lambda>pattern. js_test True pattern text)
       [rx_in_n_unit, rx_n_unit_from_now, rx_qualitative]"

text \<open>
  The loop of \<^verbatim>\<open>extractRelativeTimeExpression\<close> over its two patterns: the first pattern
  that matches returns \<^verbatim>\<open>match[0]\<close>; \<open>None\<close> is \<^verbatim>\<open>null\<close>.
\<close>

fun first_match :: "rx list \<Rightarrow> string \<Rightarrow> string option" where
  "first_match [] text = None"
| "first_match (pattern # ps) text =
     (case js_match True pattern text of
        Some (m0, caps) \<Rightarrow> Some m0
      | None \<Rightarrow> first_match ps text)"

definition extractRelativeTimeExpression :: "string \<Rightarrow> string option" where
  "extractRelativeTimeExpression text = first_match [rx_in_n_unit, rx_n_unit_from_now] text"

section \<open>Numbers as text\<close>

definition digit_char :: "nat \<Rightarrow> char" where
  "digit_char d = ''0123456789'' ! (d mod 10)"

fun show_nat :: "nat \<Rightarrow> string" where
  "show_nat n = (if n < 10 then [digit_char n] else show_nat (n div 10) @ [digit_char (n mod 10)])"

declare show_nat.simps [simp del]

definition show_int :: "int \<Rightarrow> string" where
  "show_int n = (if n < 0 then CHR ''-'' # show_nat (nat (- n)) else show_nat (nat n))"

text \<open>Zero padding on the left to a width, as in the date and time formats.\<close>

definition pad :: "nat \<Rightarrow> int \<Rightarrow> string" where
  "pad w n = (let s = show_nat (nat n) in replicate (w - length s) CHR ''0'' @ s)"

definition digit_val :: "char \<Rightarrow> int" where
  "digit_val c = of_char c - 48"

text \<open>
  A JavaScript number is an IEEE 754 double.  Every number that the code below computes
  with is an integer, so a number is modelled by the integer it denotes, and the result
  of each arithmetic operation is rounded to the nearest double, ties to the even
  significand, by \<open>fl\<close>: \<open>ulp a\<close> is the distance between neighbouring doubles at
  the magnitude \<open>a\<close>, which is 1 below \<open>2^53 = 9007199254740992\<close> and doubles with
  every further binary digit.  \<open>None\<close> stands for \<^verbatim>\<open>NaN\<close>.  A magnitude beyond the
  largest double is an infinity in the engine and stays a large integer here; every
  computation below ends in \<open>TimeClip\<close>, which turns both into an invalid date.
\<close>

function ulp :: "int \<Rightarrow> int" where
  "ulp a = (if a < 9007199254740992 then 1 else 2 * ulp (a div 2))"
  by pat_completeness auto
termination
  by (relation "measure nat") auto

declare ulp.simps [simp del]

definition fl :: "int \<Rightarrow> int" where
  "fl x =
     (let a = \<bar>x\<bar>; q = ulp a; m = a div q; r = a mod q;
          m' = (if q < 2 * r \<or> (2 * r = q \<and> odd m) then m + 1 else m)
      in sgn x * (m' * q))"

text \<open>
  \<^verbatim>\<open>parseInt\<close> on the text of capture group 1.  The group is \<^verbatim>\<open>(\d+)\<close>, so the text has
  no white space, sign or radix prefix: the digits up to the first other character are
  read in base ten, and a text without a leading digit gives \<^verbatim>\<open>NaN\<close> (\<open>None\<close>).
  The result is the double nearest to the integer read.
\<close>

definition parseInt :: "string \<Rightarrow> int option" where
  "parseInt s =
     (let ds = takeWhile is_digit s
      in if ds = [] then None else Some (fl (foldl (\<lambda>a c. 10 * a + digit_val c) 0 ds)))"

section \<open>The Date object\<close>

text \<open>
  A \<^verbatim>\<open>Date\<close> holds a time value, the milliseconds since 1970-01-01T00:00Z, or \<^verbatim>\<open>NaN\<close>
  (an invalid date).  The functions below are the abstract operations of ECMA-262
  (section "Date Objects") under their own names.  The decomposition of a time value
  into its fields is exact; \<open>MakeTime\<close>, \<open>MakeDay\<close> and \<open>MakeDate\<close> compute with
  doubles and round after every operation.  The local time zone is a parameter
  \<open>tza\<close>, the offset of local time from UTC in milliseconds (\<^verbatim>\<open>LocalTZA\<close>), less than
  a day in magnitude and taken as constant: zones that change their offset are outside
  the model.
\<close>

datatype jsdate = Date int | Invalid_Date

definition msPerDay :: int where "msPerDay = 86400000"
definition msPerHour :: int where "msPerHour = 3600000"
definition msPerMinute :: int where "msPerMinute = 60000"
definition msPerSecond :: int where "msPerSecond = 1000"

definition TimeClip :: "int \<Rightarrow> jsdate" where
  "TimeClip t = (if \<bar>t\<bar> \<le> 8640000000000000 then Date t else Invalid_Date)"

definition Day :: "int \<Rightarrow> int" where "Day t = t div msPerDay"
definition TimeWithinDay :: "int \<Rightarrow> int" where "TimeWithinDay t = t mod msPerDay"
definition HourFromTime :: "int \<Rightarrow> int" where "HourFromTime t = (t div msPerHour) mod 24"
definition MinFromTime :: "int \<Rightarrow> int" where "MinFromTime t = (t div msPerMinute) mod 60"
definition SecFromTime :: "int \<Rightarrow> int" where "SecFromTime t = (t div msPerSecond) mod 60"
definition msFromTime :: "int \<Rightarrow> int" where "msFromTime t = t mod msPerSecond"

definition InLeapYear :: "int \<Rightarrow> int" where
  "InLeapYear y = (if (y mod 4 = 0 \<and> y mod 100 \<noteq> 0) \<or> y mod 400 = 0 then 1 else 0)"

definition DayFromYear :: "int \<Rightarrow> int" where
  "DayFromYear y =
     365 * (y - 1970) + (y - 1969) div 4 - (y - 1901) div 100 + (y - 1601) div 400"

text \<open>
  The year of a day number: the largest \<open>y\<close> with \<open>DayFromYear y \<le> d\<close>.  It is computed
  from an estimate that is off by at most one year (lemma \<open>YearFromDay_bounds\<close>).
\<close>

definition YearFromDay :: "int \<Rightarrow> int" where
  "YearFromDay d =
     (let y = 1970 + (400 * d) div 146097
      in if d < DayFromYear y then y - 1
         else if DayFromYear (y + 1) \<le> d then y + 1
         else y)"

definition DayWithinYear :: "int \<Rightarrow> int" where
  "DayWithinYear d = d - DayFromYear (YearFromDay d)"

text \<open>The day within the year on which month \<open>m\<close> (0 to 11) starts.\<close>

definition MonthStart :: "int \<Rightarrow> int \<Rightarrow> int" where
  "MonthStart leap m =
     (if m = 0 then 0 else if m = 1 then 31 else if m = 2 then 59 + leap
      else if m = 3 then 90 + leap else if m = 4 then 120 + leap
      else if m = 5 then 151 + leap else if m = 6 then 181 + leap
      else if m = 7 then 212 + leap else if m = 8 then 243 + leap
      else if m = 9 then 273 + leap else if m = 10 then 304 + leap
      else 334 + leap)"

definition MonthFromDay :: "int \<Rightarrow> int" where
  "MonthFromDay d =
     (let w = DayWithinYear d; leap = InLeapYear (YearFromDay d)
      in if w < 31 then 0 else if w < 59 + leap then 1 else if w < 90 + leap then 2
         else if w < 120 + leap then 3 else if w < 151 + leap then 4
         else if w < 181 + leap then 5 else if w < 212 + leap then 6
         else if w < 243 + leap then 7 else if w < 273 + leap then 8
         else if w < 304 + leap then 9 else if w < 334 + leap then 10 else 11)"

definition DateFromDay :: "int \<Rightarrow> int" where
  "DateFromDay d =
     DayWithinYear d - MonthStart (InLeapYear (YearFromDay d)) (MonthFromDay d) + 1"

definition YearFromTime :: "int \<Rightarrow> int" where "YearFromTime t = YearFromDay (Day t)"
definition MonthFromTime :: "int \<Rightarrow> int" where "MonthFromTime t = MonthFromDay (Day t)"
definition DateFromTime :: "int \<Rightarrow> int" where "DateFromTime t = DateFromDay (Day t)"

definition MakeTime :: "int \<Rightarrow> int \<Rightarrow> int \<Rightarrow> int \<Rightarrow> int" where
  "MakeTime hour mn sec milli =
     fl (fl (fl (fl (hour * msPerHour) + fl (mn * msPerMinute)) + fl (sec * msPerSecond)) + milli)"

definition MakeDay :: "int \<Rightarrow> int \<Rightarrow> int \<Rightarrow> int" where
  "MakeDay year month dt =
     (let ym = fl (year + month div 12); mn = month mod 12
      in fl (fl (DayFromYear ym + MonthStart (InLeapYear ym) mn + dt) - 1))"

definition MakeDate :: "int \<Rightarrow> int \<Rightarrow> int" where
  "MakeDate day tm = fl (fl (day * msPerDay) + tm)"

definition LocalTime :: "int \<Rightarrow> int \<Rightarrow> int" where "LocalTime tza t = t + tza"
definition UTC :: "int \<Rightarrow> int \<Rightarrow> int" where "UTC tza t = t - tza"

text \<open>
  The getters return \<^verbatim>\<open>NaN\<close> on an invalid date; a sum and a product are rounded, and
  \<^verbatim>\<open>NaN\<close> plus or times a number is \<^verbatim>\<open>NaN\<close>.
\<close>

definition num_add :: "int option \<Rightarrow> int option \<Rightarrow> int option" where
  "num_add a b = (case (a, b) of (Some x, Some y) \<Rightarrow> Some (fl (x + y)) | _ \<Rightarrow> None)"

definition num_mul :: "int option \<Rightarrow> int option \<Rightarrow> int option" where
  "num_mul a b = (case (a, b) of (Some x, Some y) \<Rightarrow> Some (fl (x * y)) | _ \<Rightarrow> None)"

definition getMinutes :: "int \<Rightarrow> jsdate \<Rightarrow> int option" where
  "getMinutes tza d = (case d of Invalid_Date \<Rightarrow> None | Date t \<Rightarrow> Some (MinFromTime (LocalTime tza t)))"

definition getHours :: "int \<Rightarrow> jsdate \<Rightarrow> int option" where
  "getHours tza d = (case d of Invalid_Date \<Rightarrow> None | Date t \<Rightarrow> Some (HourFromTime (LocalTime tza t)))"

definition getDate :: "int \<Rightarrow> jsdate \<Rightarrow> int option" where
  "getDate tza d = (case d of Invalid_Date \<Rightarrow> None | Date t \<Rightarrow> Some (DateFromTime (LocalTime tza t)))"

definition getMonth :: "int \<Rightarrow> jsdate \<Rightarrow> int option" where
  "getMonth tza d = (case d of Invalid_Date \<Rightarrow> None | Date t \<Rightarrow> Some (MonthFromTime (LocalTime tza t)))"

definition getFullYear :: "int \<Rightarrow> jsdate \<Rightarrow> int option" where
  "getFullYear tza d = (case d of Invalid_Date \<Rightarrow> None | Date t \<Rightarrow> Some (YearFromTime (LocalTime tza t)))"

text \<open>
  The setters, each with its one argument.  They work on the local time of the date and
  return the new date; a \<^verbatim>\<open>NaN\<close> argument, and a result outside the range of
  \<open>TimeClip\<close>, give an invalid date.  \<^verbatim>\<open>setFullYear\<close> alone starts from time 0 when the
  date is invalid.
\<close>

definition setMinutes :: "int \<Rightarrow> jsdate \<Rightarrow> int option \<Rightarrow> jsdate" where
  "setMinutes tza d m =
     (case (d, m) of
        (Date t0, Some mn) \<Rightarrow>
          (let t = LocalTime tza t0;
               date = MakeDate (Day t) (MakeTime (HourFromTime t) mn (SecFromTime t) (msFromTime t))
           in TimeClip (UTC tza date))
      | _ \<Rightarrow> Invalid_Date)"

definition setHours :: "int \<Rightarrow> jsdate \<Rightarrow> int option \<Rightarrow> jsdate" where
  "setHours tza d h =
     (case (d, h) of
        (Date t0, Some hour) \<Rightarrow>
          (let t = LocalTime tza t0;
               date = MakeDate (Day t) (MakeTime hour (MinFromTime t) (SecFromTime t) (msFromTime t))
           in TimeClip (UTC tza date))
      | _ \<Rightarrow> Invalid_Date)"

definition setDate :: "int \<Rightarrow> jsdate \<Rightarrow> int option \<Rightarrow> jsdate" where
  "setDate tza d a =
     (case (d, a) of
        (Date t0, Some dt) \<Rightarrow>
          (let t = LocalTime tza t0;
               newDate = MakeDate (MakeDay (YearFromTime t) (MonthFromTime t) dt) (TimeWithinDay t)
           in TimeClip (UTC tza newDate))
      | _ \<Rightarrow> Invalid_Date)"

definition setMonth :: "int \<Rightarrow> jsdate \<Rightarrow> int option \<Rightarrow> jsdate" where
  "setMonth tza d a =
     (case (d, a) of
        (Date t0, Some m) \<Rightarrow>
          (let t = LocalTime tza t0;
               newDate = MakeDate (MakeDay (YearFromTime t) m (DateFromTime t)) (TimeWithinDay t)
           in TimeClip (UTC tza newDate))
      | _ \<Rightarrow> Invalid_Date)"

definition setFullYear :: "int \<Rightarrow> jsdate \<Rightarrow> int option \<Rightarrow> jsdate" where
  "setFullYear tza d a =
     (case a of
        None \<Rightarrow> Invalid_Date
      | Some y \<Rightarrow>
          (let t = (case d of Invalid_Date \<Rightarrow> 0 | Date t0 \<Rightarrow> LocalTime tza t0);
               newDate = MakeDate (MakeDay y (MonthFromTime t) (DateFromTime t)) (TimeWithinDay t)
           in TimeClip (UTC tza newDate)))"

text \<open>
  What the source can throw: an \<^verbatim>\<open>Error\<close> or one of its subclasses, each with its message,
  or a value that is not an \<^verbatim>\<open>Error\<close> (the model call may reject with anything).
\<close>

datatype error =
    Error string
  | RangeError string
  | TypeError string
  | SyntaxError string
  | NonError

text \<open>
  \<^verbatim>\<open>toISOString\<close> renders the UTC fields as \<^verbatim>\<open>YYYY-MM-DDTHH:mm:ss.sssZ\<close>, the year with a sign
  and six digits when it is outside 0..9999, and throws a \<^verbatim>\<open>RangeError\<close> on an invalid
  date.  \<^verbatim>\<open>toTimeString\<close> renders the local time as \<^verbatim>\<open>HH:mm:ss GMT+hhmm\<close> (the zone name
  that an engine may append is left out) and gives \<^verbatim>\<open>Invalid Date\<close> on an invalid date.
\<close>

definition iso_year :: "int \<Rightarrow> string" where
  "iso_year y =
     (if 0 \<le> y \<and> y \<le> 9999 then pad 4 y
      else (if y < 0 then CHR ''-'' else CHR ''+'') # pad 6 \<bar>y\<bar>)"

definition toISOString :: "jsdate \<Rightarrow> error + string" where
  "toISOString d =
     (case d of
        Invalid_Date \<Rightarrow> Inl (RangeError ''Invalid time value'')
      | Date t \<Rightarrow>
          Inr (iso_year (YearFromTime t) @ ''-'' @ pad 2 (MonthFromTime t + 1) @ ''-''
               @ pad 2 (DateFromTime t) @ ''T'' @ pad 2 (HourFromTime t) @ '':''
               @ pad 2 (MinFromTime t) @ '':'' @ pad 2 (SecFromTime t) @ ''.''
               @ pad 3 (msFromTime t) @ ''Z''))"

definition toTimeString :: "int \<Rightarrow> jsdate \<Rightarrow> string" where
  "toTimeString tza d =
     (case d of
        Invalid_Date \<Rightarrow> ''Invalid Date''
      | Date t0 \<Rightarrow>
          (let t = LocalTime tza t0
           in pad 2 (HourFromTime t) @ '':'' @ pad 2 (MinFromTime t) @ '':''
              @ pad 2 (SecFromTime t) @ '' GMT'' @ (if tza < 0 then ''-'' else ''+'')
              @ pad 2 (\<bar>tza\<bar> div msPerHour) @ pad 2 ((\<bar>tza\<bar> div msPerMinute) mod 60)))"

text \<open>\<^verbatim>\<open>s.split('T')[0]\<close>: the text before the first \<^verbatim>\<open>T\<close>.\<close>

definition split_T_0 :: "string \<Rightarrow> string" where
  "split_T_0 s = takeWhile (\<lambda>c. c \<noteq> CHR ''T'') s"

section \<open>timeUtils: calculateRelativeTime\<close>

record TimeCalculation =
  date :: string
  time :: string

text \<open>
  The object literal that \<^verbatim>\<open>calculateRelativeTime\<close> and \<^verbatim>\<open>getCurrentDateTime\<close> return,
  \<^verbatim>\<open>{ date: d.toISOString().split('T')[0], time: d.toTimeString().slice(0, 5) }\<close>.
  The date is evaluated first, so an invalid date throws.
\<close>

definition date_and_time :: "int \<Rightarrow> jsdate \<Rightarrow> error + TimeCalculation" where
  "date_and_time tza d =
     (case toISOString d of
        Inl e \<Rightarrow> Inl e
      | Inr s \<Rightarrow> Inr \<lparr>date = split_T_0 s, time = take 5 (toTimeString tza d)\<rparr>)"

text \<open>\<^verbatim>\<open>/in\s+(\d+)\s+(minute|...|years)/\<close>, without flags and without word boundaries.\<close>

definition rx_calc :: rx where
  "rx_calc = Seq (Lit ''in'') (Seq (Plus Space) (Seq (Grp (Plus Digit)) (Seq (Plus Space) unit_alt)))"

text \<open>
  \<open>baseDate\<close> is the second argument made explicit (the source defaults it to the
  clock); \<open>tza\<close> is the zone of the process.  The \<^verbatim>\<open>switch\<close> keeps its cases in order.
\<close>

definition calculateRelativeTime :: "string \<Rightarrow> int \<Rightarrow> jsdate \<Rightarrow> error + TimeCalculation" where
  "calculateRelativeTime relativeExpression tza baseDate =
     (let now = baseDate;
          lowerExpression = trim (toLowerCase relativeExpression)
      in case js_match False rx_calc lowerExpression of
           Some (m0, [m1, m2]) \<Rightarrow>
             (let amount = parseInt m1;
                  unit = m2;
                  targetDate =
                    (if unit = ''minute'' \<or> unit = ''minutes''
                       then setMinutes tza now (num_add (getMinutes tza now) amount)
                     else if unit = ''hour'' \<or> unit = ''hours''
                       then setHours tza now (num_add (getHours tza now) amount)
                     else if unit = ''day'' \<or> unit = ''days''
                       then setDate tza now (num_add (getDate tza now) amount)
                     else if unit = ''week'' \<or> unit = ''weeks''
                       then setDate tza now (num_add (getDate tza now) (num_mul amount (Some 7)))
                     else if unit = ''month'' \<or> unit = ''months''
                       then setMonth tza now (num_add (getMonth tza now) amount)
                     else if unit = ''year'' \<or> unit = ''years''
                       then setFullYear tza now (num_add (getFullYear tza now) amount)
                     else now)
              in date_and_time tza targetDate)
         | _ \<Rightarrow> date_and_time tza now)"

definition getCurrentDateTime :: "int \<Rightarrow> jsdate \<Rightarrow> error + TimeCalculation" where
  "getCurrentDateTime tza clock = date_and_time tza clock"

section \<open>Parsed JSON values\<close>

text \<open>
  The value that \<^verbatim>\<open>JSON.parse\<close> returns.  A number is modelled where it is an integer
  of magnitude at most \<open>2^53\<close> (every such integer is a double, and its text is its
  plain decimal numeral); an object is the list of its own properties.  \<open>get_prop\<close> is \<^verbatim>\<open>data[key]\<close> (\<open>None\<close> is \<^verbatim>\<open>undefined\<close>) and
  \<open>set_prop\<close> is the assignment \<^verbatim>\<open>data[key] = v\<close>.
\<close>

datatype json =
    JNull
  | JBool bool
  | JNum int
  | JStr string
  | JArr "json list"
  | JObj "(string \<times> json) list"

type_synonym obj = "(string \<times> json) list"

definition get_prop :: "obj \<Rightarrow> string \<Rightarrow> json option" where
  "get_prop d k = map_of d k"

fun set_prop :: "obj \<Rightarrow> string \<Rightarrow> json \<Rightarrow> obj" where
  "set_prop [] k v = [(k, v)]"
| "set_prop ((k', v') # d) k v = (if k' = k then (k, v) # d else (k', v') # set_prop d k v)"

text \<open>Truthiness: \<^verbatim>\<open>undefined\<close>, \<^verbatim>\<open>null\<close>, \<^verbatim>\<open>false\<close>, \<^verbatim>\<open>0\<close> and the empty string are falsy.\<close>

fun truthy :: "json option \<Rightarrow> bool" where
  "truthy None = False"
| "truthy (Some JNull) = False"
| "truthy (Some (JBool b)) = b"
| "truthy (Some (JNum n)) = (n \<noteq> 0)"
| "truthy (Some (JStr s)) = (s \<noteq> [])"
| "truthy (Some (JArr vs)) = True"
| "truthy (Some (JObj kvs)) = True"

text \<open>
  The conversion to a string that a template literal and \<^verbatim>\<open>RegExp.prototype.test\<close> apply
  to their argument.  An array joins the texts of its elements with commas, \<^verbatim>\<open>null\<close>
  giving the empty text; a plain object gives \<^verbatim>\<open>[object Object]\<close>, unless it has an own
  property \<^verbatim>\<open>toString\<close>: a parsed value is never callable, the inherited \<^verbatim>\<open>valueOf\<close>
  returns the object itself, and the conversion throws a \<^verbatim>\<open>TypeError\<close>.
\<close>

fun join_comma :: "string list \<Rightarrow> string" where
  "join_comma [] = []"
| "join_comma [x] = x"
| "join_comma (x # y # ys) = x @ '','' @ join_comma (y # ys)"

fun to_text :: "json \<Rightarrow> string" where
  "to_text JNull = ''null''"
| "to_text (JBool b) = (if b then ''true'' else ''false'')"
| "to_text (JNum n) = show_int n"
| "to_text (JStr s) = s"
| "to_text (JArr vs) = join_comma (map (\<lambda>v. if v = JNull then [] else to_text v) vs)"
| "to_text (JObj kvs) = ''[object Object]''"

fun text_throws :: "json \<Rightarrow> bool" where
  "text_throws (JArr vs) = list_ex text_throws vs"
| "text_throws (JObj kvs) = (''toString'' \<in> set (map fst kvs))"
| "text_throws v = False"

definition ToString :: "json option \<Rightarrow> error + string" where
  "ToString a =
     (case a of
        None \<Rightarrow> Inr ''undefined''
      | Some v \<Rightarrow>
          if text_throws v then Inl (TypeError ''Cannot convert object to primitive value'')
          else Inr (to_text v))"

text \<open>\<^verbatim>\<open>list.includes(x)\<close> for a list of strings: only an equal string is found.\<close>

definition array_includes :: "string list \<Rightarrow> json option \<Rightarrow> bool" where
  "array_includes xs a = (case a of Some (JStr s) \<Rightarrow> s \<in> set xs | _ \<Rightarrow> False)"

section \<open>geminiService\<close>

text \<open>
  \<^verbatim>\<open>postProcessScheduleData\<close>.  The candidate is mutated in place in the source; the model
  returns the updated candidate.  \<open>clock\<close> is the time value that \<^verbatim>\<open>new Date()\<close> reads
  inside \<^verbatim>\<open>calculateRelativeTime\<close>, and an exception of that call leaves the function.
\<close>

definition postProcessScheduleData :: "obj \<Rightarrow> string \<Rightarrow> int \<Rightarrow> int \<Rightarrow> error + obj" where
  "postProcessScheduleData scheduleData userPrompt tza clock =
     (if hasRelativeTimeExpression userPrompt then
        (case extractRelativeTimeExpression userPrompt of
           None \<Rightarrow> Inr scheduleData
         | Some relativeExpression \<Rightarrow>
             if relativeExpression \<noteq> [] then
               (case calculateRelativeTime relativeExpression tza (Date clock) of
                  Inl e \<Rightarrow> Inl e
                | Inr calculatedTime \<Rightarrow>
                    Inr (set_prop (set_prop scheduleData ''date'' (JStr (date calculatedTime)))
                           ''time'' (JStr (time calculatedTime))))
             else Inr scheduleData)
      else Inr scheduleData)"

text \<open>
  \<^verbatim>\<open>validateScheduleData\<close> returns a boolean and writes the reason of a rejection to the
  error log only.  \<open>Accept\<close> is \<^verbatim>\<open>return true\<close>; \<open>Reject m\<close> is \<^verbatim>\<open>logger.error(m)\<close>
  followed by \<^verbatim>\<open>return false\<close>.  Building a log line, and testing a pattern, converts
  the value to a string, which can throw.
\<close>

datatype verdict = Accept | Reject string

text \<open>The loop over \<^verbatim>\<open>requiredFields\<close>: the first field whose value is falsy.\<close>

fun missing_required :: "obj \<Rightarrow> string list \<Rightarrow> string option" where
  "missing_required d [] = None"
| "missing_required d (field # fs) =
     (if \<not> truthy (get_prop d field) then Some field else missing_required d fs)"

text \<open>\<^verbatim>\<open>/^\d{4}-\d{2}-\d{2}$/\<close> and \<^verbatim>\<open>/^\d{2}:\d{2}$/\<close>\<close>

definition dateRegex :: rx where
  "dateRegex =
     Seq Bol (Seq (Rep 4 Digit) (Seq (Lit ''-'') (Seq (Rep 2 Digit) (Seq (Lit ''-'')
         (Seq (Rep 2 Digit) Eol)))))"

definition timeRegex :: rx where
  "timeRegex = Seq Bol (Seq (Rep 2 Digit) (Seq (Lit '':'') (Seq (Rep 2 Digit) Eol)))"

definition validateScheduleData :: "obj \<Rightarrow> error + verdict" where
  "validateScheduleData d =
     (case missing_required d [''type'', ''title'', ''date'', ''time''] of
        Some field \<Rightarrow> Inr (Reject (''Missing required field: '' @ field))
      | None \<Rightarrow>
          if \<not> array_includes [''meeting'', ''reminder'', ''task'', ''appointment''] (get_prop d ''type'') then
            (case ToString (get_prop d ''type'') of
               Inl e \<Rightarrow> Inl e
             | Inr s \<Rightarrow> Inr (Reject (''Invalid type: '' @ s)))
          else if truthy (get_prop d ''priority'')
                  \<and> \<not> array_includes [''low'', ''medium'', ''high''] (get_prop d ''priority'') then
            (case ToString (get_prop d ''priority'') of
               Inl e \<Rightarrow> Inl e
             | Inr s \<Rightarrow> Inr (Reject (''Invalid priority: '' @ s)))
          else
            (case ToString (get_prop d ''date'') of
               Inl e \<Rightarrow> Inl e
             | Inr ds \<Rightarrow>
                 if \<not> js_test False dateRegex ds then Inr (Reject (''Invalid date format: '' @ ds))
                 else
                   (case ToString (get_prop d ''time'') of
                      Inl e \<Rightarrow> Inl e
                    | Inr ts \<Rightarrow>
                        if \<not> js_test False timeRegex ts
                        then Inr (Reject (''Invalid time format: '' @ ts))
                        else Inr Accept)))"

record AIResponse =
  success :: bool
  data :: "obj option"
  error :: "string option"

text \<open>
  The \<^verbatim>\<open>catch\<close> block of \<^verbatim>\<open>processSchedulePrompt\<close>:
  \<^verbatim>\<open>error instanceof Error ? error.message : 'Unknown error occurred'\<close>.
\<close>

definition failure :: "error \<Rightarrow> AIResponse" where
  "failure e =
     \<lparr>success = False, data = None,
      error = Some (case e of Error m \<Rightarrow> m | RangeError m \<Rightarrow> m | TypeError m \<Rightarrow> m
                    | SyntaxError m \<Rightarrow> m | NonError \<Rightarrow> ''Unknown error occurred'')\<rparr>"

text \<open>\<^verbatim>\<open>/\{[\s\S]*\}/\<close>\<close>

definition rx_json :: rx where
  "rx_json = Seq (Lit ''{'') (Seq (Star AnyChar) (Lit ''}''))"

text \<open>
  \<^verbatim>\<open>processSchedulePrompt\<close>.  The two collaborators are parameters: \<open>reply\<close> is the
  outcome of the model call (the text of the reply, or what the call threw), and
  \<open>parse\<close> is \<^verbatim>\<open>JSON.parse\<close>; it is applied to a text that starts with a brace, where
  it returns an object or throws.
\<close>

definition processSchedulePrompt ::
    "(string \<Rightarrow> error + obj) \<Rightarrow> error + string \<Rightarrow> string \<Rightarrow> int \<Rightarrow> int \<Rightarrow> AIResponse" where
  "processSchedulePrompt parse reply userPrompt tza clock =
     (case reply of
        Inl e \<Rightarrow> failure e
      | Inr text \<Rightarrow>
          (case js_match False rx_json text of
             None \<Rightarrow> failure (Error ''No valid JSON found in AI response'')
           | Some (jsonString, caps) \<Rightarrow>
               (case parse jsonString of
                  Inl e \<Rightarrow> failure e
                | Inr scheduleData \<Rightarrow>
                    (case postProcessScheduleData scheduleData userPrompt tza clock of
                       Inl e \<Rightarrow> failure e
                     | Inr processedData \<Rightarrow>
                         (case validateScheduleData processedData of
                            Inl e \<Rightarrow> failure e
                          | Inr (Reject m) \<Rightarrow> failure (Error ''Invalid schedule data structure'')
                          | Inr Accept \<Rightarrow>
                              \<lparr>success = True, data = Some processedData, error = None\<rparr>)))))"

section \<open>Notions used in the statements\<close>

text \<open>
  The minute of the day on the local clock, the text \<^verbatim>\<open>HH:MM\<close> of a minute of the day,
  and the text \<^verbatim>\<open>YYYY-MM-DD\<close> of a day number.
\<close>

definition clock_minutes :: "int \<Rightarrow> int \<Rightarrow> int" where
  "clock_minutes tza t = HourFromTime (LocalTime tza t) * 60 + MinFromTime (LocalTime tza t)"

definition hhmm :: "int \<Rightarrow> string" where
  "hhmm k = pad 2 (k div 60) @ '':'' @ pad 2 (k mod 60)"

definition ymd :: "int \<Rightarrow> string" where
  "ymd d = iso_year (YearFromDay d) @ ''-'' @ pad 2 (MonthFromDay d + 1) @ ''-'' @ pad 2 (DateFromDay d)"

section \<open>Numbers that a double holds exactly\<close>

lemma ulp_small: "a < 9007199254740992 \<Longrightarrow> ulp a = 1"
  by (simp add: ulp.simps)

lemma fl_exact: "\<bar>x\<bar> < 9007199254740992 \<Longrightarrow> fl x = x"
  by (simp add: fl_def Let_def ulp_small mult_sgn_abs)

section \<open>Digits and decimal numerals\<close>

lemma is_digit_cases: "is_digit c \<longleftrightarrow> c = CHR ''0'' \<or> c = CHR ''1'' \<or> c = CHR ''2'' \<or> c = CHR ''3'' \<or> c = CHR ''4''
   \<or> c = CHR ''5'' \<or> c = CHR ''6'' \<or> c = CHR ''7'' \<or> c = CHR ''8'' \<or> c = CHR ''9''"
  by (simp add: is_digit_def)

lemma digit_char_cases: "d < 10 \<Longrightarrow> d = 0 \<or> d = 1 \<or> d = 2 \<or> d = 3 \<or> d = 4 \<or> d = 5 \<or> d = 6 \<or> d = 7 \<or> d = 8 \<or> d = (9::nat)"
  by arith

lemma is_digit_digit_char: "is_digit (digit_char d)"
proof -
  have "d mod 10 < 10" by simp
  from digit_char_cases [OF this] show ?thesis
    unfolding digit_char_def is_digit_def by (elim disjE) simp_all
qed

lemma digit_val_digit_char: "digit_val (digit_char d) = int (d mod 10)"
proof -
  have "d mod 10 < 10" by simp
  from digit_char_cases [OF this] show ?thesis
    unfolding digit_char_def digit_val_def by (elim disjE) simp_all
qed

lemma lower_char_digit: "is_digit c \<Longrightarrow> lower_char c = c"
  unfolding is_digit_cases lower_char_def by (elim disjE) simp_all

lemma digit_not_space: "is_digit c \<Longrightarrow> \<not> is_space c"
  unfolding is_digit_cases is_space_def by (elim disjE) simp_all

lemma digit_not_i: "is_digit c \<Longrightarrow> c \<noteq> CHR ''i''"
  unfolding is_digit_cases by (elim disjE) simp_all

lemma digit_not_T: "is_digit c \<Longrightarrow> c \<noteq> CHR ''T''"
  unfolding is_digit_cases by (elim disjE) simp_all

lemma show_nat_digits: "c \<in> set (show_nat n) \<Longrightarrow> is_digit c"
proof (induction n arbitrary: c rule: show_nat.induct)
  case (1 n)
  show ?case
  proof (cases "n < 10")
    case True
    with "1.prems" show ?thesis by (simp add: show_nat.simps [of n] is_digit_digit_char)
  next
    case False
    with "1.prems" "1.IH" show ?thesis
      by (auto simp add: show_nat.simps [of n] is_digit_digit_char)
  qed
qed

lemma show_nat_nonempty: "show_nat n \<noteq> []"
  by (simp add: show_nat.simps [of n])

lemma parse_show_nat: "foldl (\<lambda>a c. 10 * a + digit_val c) 0 (show_nat n) = int n"
proof (induction n rule: show_nat.induct)
  case (1 n)
  show ?case
  proof (cases "n < 10")
    case True
    then show ?thesis by (simp add: show_nat.simps [of n] digit_val_digit_char)
  next
    case False
    with "1.IH" show ?thesis
      by (simp add: show_nat.simps [of n] digit_val_digit_char) presburger
  qed
qed

lemma parseInt_show_nat: "int n < 9007199254740992 \<Longrightarrow> parseInt (show_nat n) = Some (int n)"
proof -
  assume n: "int n < 9007199254740992"
  have tw: "takeWhile is_digit (show_nat n) = show_nat n"
    by (simp add: takeWhile_eq_all_conv show_nat_digits)
  have "fl (int n) = int n" using n by (intro fl_exact) simp
  then show ?thesis
    unfolding parseInt_def Let_def tw by (simp add: show_nat_nonempty parse_show_nat)
qed

section \<open>The matcher on a run of one class\<close>

lemma star_cls_stop: "r = [] \<or> \<not> in_class k (hd r) \<Longrightarrow> star_cls k p r = [(p, r)]"
  by (cases r) auto

lemma star_cls_span:
  "\<forall>c\<in>set ds. in_class k c \<Longrightarrow> r = [] \<or> \<not> in_class k (hd r) \<Longrightarrow>
   \<exists>tl. star_cls k p (ds @ r) = (rev ds @ p, r) # tl"
proof (induction ds arbitrary: p)
  case Nil
  then show ?case by (simp add: star_cls_stop)
next
  case (Cons d ds)
  from Cons.IH [of "d # p"] Cons.prems obtain tl
    where "star_cls k (d # p) (ds @ r) = (rev ds @ d # p, r) # tl" by auto
  with Cons.prems show ?case by simp
qed

lemma unit_alt_minutes:
  "ms False unit_alt (p, ''minutes'' @ r, c) =
     [(''etunim'' @ p, ''s'' @ r, c @ [''minute'']), (''setunim'' @ p, r, c @ [''minutes''])]"
  by (simp add: unit_alt_def canon_def)

lemma unit_alt_days:
  "ms False unit_alt (p, ''days'' @ r, c) =
     [(''yad'' @ p, ''s'' @ r, c @ [''day'']), (''syad'' @ p, r, c @ [''days''])]"
  by (simp add: unit_alt_def canon_def)

section \<open>Time arithmetic\<close>

lemma MakeTime_exact:
  assumes "0 \<le> h" "h < 24" "0 \<le> m" "m \<le> 150000000059" "0 \<le> s" "s < 60" "0 \<le> k" "k < 1000"
  shows "MakeTime h m s k = h * 3600000 + m * 60000 + s * 1000 + k"
proof -
  have 1: "fl (h * 3600000) = h * 3600000" using assms by (intro fl_exact) simp
  have 2: "fl (m * 60000) = m * 60000" using assms by (intro fl_exact) simp
  have 3: "fl (h * 3600000 + m * 60000) = h * 3600000 + m * 60000"
    using assms by (intro fl_exact) simp
  have 4: "fl (s * 1000) = s * 1000" using assms by (intro fl_exact) simp
  have 5: "fl (h * 3600000 + m * 60000 + s * 1000) = h * 3600000 + m * 60000 + s * 1000"
    using assms by (intro fl_exact) simp
  have 6: "fl (h * 3600000 + m * 60000 + s * 1000 + k) = h * 3600000 + m * 60000 + s * 1000 + k"
    using assms by (intro fl_exact) simp
  show ?thesis
    unfolding MakeTime_def msPerHour_def msPerMinute_def msPerSecond_def 1 2 3 4 5 6 ..
qed

lemma MakeDate_exact:
  assumes "\<bar>d * 86400000\<bar> < 9007199254740992" "\<bar>d * 86400000 + tm\<bar> < 9007199254740992"
  shows "MakeDate d tm = d * 86400000 + tm"
  unfolding MakeDate_def msPerDay_def fl_exact [OF assms(1)] fl_exact [OF assms(2)] ..

lemma time_decomp:
  assumes "\<bar>t\<bar> \<le> 8640000086400000" "0 \<le> m" "m \<le> 150000000059"
    and "\<bar>t + (m - MinFromTime t) * msPerMinute\<bar> < 9007199254740992"
  shows "MakeDate (Day t) (MakeTime (HourFromTime t) m (SecFromTime t) (msFromTime t))
     = t + (m - MinFromTime t) * msPerMinute"
proof -
  define a where "a = t div 1000"
  define b where "b = a div 60"
  define c where "c = b div 60"
  define q where "q = c div 24"
  define r0 where "r0 = t mod 1000"
  define r1 where "r1 = a mod 60"
  define r2 where "r2 = b mod 60"
  define r3 where "r3 = c mod 24"
  have 1: "t div 60000 = b" unfolding b_def a_def by (simp add: div_mult2_eq [symmetric])
  have 2: "t div 3600000 = c" unfolding c_def b_def a_def by (simp add: div_mult2_eq [symmetric])
  have 3: "t div 86400000 = q" unfolding q_def c_def b_def a_def by (simp add: div_mult2_eq [symmetric])
  have e1: "t = 1000 * a + r0" unfolding a_def r0_def by simp
  have e2: "a = 60 * b + r1" unfolding b_def r1_def by simp
  have e3: "b = 60 * c + r2" unfolding c_def r2_def by simp
  have e4: "c = 24 * q + r3" unfolding q_def r3_def by simp
  have b0: "0 \<le> r0" "r0 < 1000" unfolding r0_def by simp_all
  have b1: "0 \<le> r1" "r1 < 60" unfolding r1_def by simp_all
  have b2: "0 \<le> r2" "r2 < 60" unfolding r2_def by simp_all
  have b3: "0 \<le> r3" "r3 < 24" unfolding r3_def by simp_all
  have tq: "t = q * 86400000 + (r3 * 3600000 + r2 * 60000 + r1 * 1000 + r0)"
    using e1 e2 e3 e4 by simp
  have mt: "MakeTime r3 m r1 r0 = r3 * 3600000 + m * 60000 + r1 * 1000 + r0"
    using b3 assms(2,3) b1 b0 by (rule MakeTime_exact)
  have sum: "q * 86400000 + (r3 * 3600000 + m * 60000 + r1 * 1000 + r0) = t + (m - r2) * 60000"
    using tq by (simp add: algebra_simps)
  have qb: "\<bar>q * 86400000\<bar> < 9007199254740992"
    using tq assms(1) b0 b1 b2 b3 by linarith
  have sb: "\<bar>q * 86400000 + (r3 * 3600000 + m * 60000 + r1 * 1000 + r0)\<bar> < 9007199254740992"
    unfolding sum using assms(4) by (simp add: MinFromTime_def msPerMinute_def 1 r2_def)
  have "MakeDate q (MakeTime r3 m r1 r0) = t + (m - r2) * 60000"
    unfolding mt MakeDate_exact [OF qb sb] by (rule sum)
  then show ?thesis
    unfolding Day_def HourFromTime_def SecFromTime_def msFromTime_def
      MinFromTime_def msPerDay_def msPerHour_def msPerMinute_def msPerSecond_def 1 2 3
    unfolding a_def [symmetric] r0_def [symmetric] r1_def [symmetric] r2_def [symmetric] r3_def [symmetric]
    by simp
qed

lemma MinFromTime_range: "0 \<le> MinFromTime t" "MinFromTime t < 60"
  by (simp_all add: MinFromTime_def)

section \<open>Matching the pattern of calculateRelativeTime\<close>

lemma lower_show_nat: "toLowerCase (show_nat n) = show_nat n"
  unfolding toLowerCase_def by (rule map_idI) (simp add: lower_char_digit show_nat_digits)

lemma hd_show_nat_digit: "is_digit (hd (show_nat n))"
  using show_nat_digits [of "hd (show_nat n)" n] show_nat_nonempty [of n] by simp

lemma ms_Seq_first:
  "ms i a st = s1 # rest \<Longrightarrow> \<exists>tl2. ms i b s1 = s2 # tl2 \<Longrightarrow> \<exists>tl3. ms i (Seq a b) st = s2 # tl3"
  by auto

lemma prep_in_n_unit:
  assumes "toLowerCase u = u" "u \<noteq> []" "\<not> is_space (last u)"
  shows "trim (toLowerCase (''in '' @ show_nat n @ '' '' @ u)) = ''in '' @ show_nat n @ '' '' @ u"
proof -
  define s where "s = ''in '' @ show_nat n @ '' '' @ u"
  have low: "toLowerCase s = s"
    using lower_show_nat [of n] assms(1) by (simp add: s_def toLowerCase_def lower_char_def)
  have front: "dropWhile is_space s = s"
    by (simp add: s_def is_space_def)
  have "last s = last u" using assms(2) by (simp add: s_def)
  then have "\<not> is_space (hd (rev s))" using assms(3) by (simp add: hd_rev)
  then have rear: "dropWhile is_space (rev s) = rev s"
    by (cases "rev s") auto
  show ?thesis
    unfolding s_def [symmetric] low trim_def front rear by simp
qed

lemma ms_Plus_Space_one:
  "r = [] \<or> \<not> is_space (hd r) \<Longrightarrow> ms i (Plus Space) (p, CHR '' '' # r, c) = [(CHR '' '' # p, r, c)]"
  by (simp add: is_space_def star_cls_stop)

lemma ms_Grp_digits:
  assumes "ds \<noteq> []" "\<forall>ch\<in>set ds. is_digit ch" "r = [] \<or> \<not> is_digit (hd r)"
  shows "\<exists>tl. ms i (Grp (Plus Digit)) (p, ds @ r, c) = (rev ds @ p, r, c @ [ds]) # tl"
proof -
  from assms(1) obtain x xs where ds: "ds = x # xs" by (cases ds) auto
  with assms(2) have x: "is_digit x" and xs: "\<forall>ch\<in>set xs. in_class Digit ch" by auto
  from star_cls_span [OF xs, of r "x # p"] assms(3) obtain tl
    where "star_cls Digit (x # p) (xs @ r) = (rev xs @ x # p, r) # tl" by auto
  with x ds show ?thesis by simp
qed

lemma calc_match_unit:
  assumes u: "u \<noteq> []" "\<not> is_space (hd u)"
    and e: "\<And>p c. \<exists>p' r' tl. ms False unit_alt (p, u, c) = (p', r', c @ [w]) # tl"
  shows "\<exists>m0. js_match False rx_calc (''in '' @ show_nat n @ '' '' @ u) = Some (m0, [show_nat n, w])"
proof -
  let ?ds = "show_nat n"
  have a: "ms False (Lit ''in'') ([], ''in '' @ ?ds @ '' '' @ u, []) = [(''ni'', '' '' @ ?ds @ '' '' @ u, [])]"
    by (simp add: canon_def)
  have b: "ms False (Plus Space) (''ni'', '' '' @ ?ds @ '' '' @ u, []) = [('' ni'', ?ds @ '' '' @ u, [])]"
    using ms_Plus_Space_one [of "?ds @ '' '' @ u" False "''ni''" "[]"]
    by (simp add: show_nat_nonempty hd_show_nat_digit digit_not_space)
  have "\<exists>tl. ms False (Grp (Plus Digit)) ('' ni'', ?ds @ '' '' @ u, [])
      = (rev ?ds @ '' ni'', '' '' @ u, [] @ [?ds]) # tl"
  proof (rule ms_Grp_digits)
    show "?ds \<noteq> []" by (rule show_nat_nonempty)
    show "\<forall>ch\<in>set ?ds. is_digit ch" by (simp add: show_nat_digits)
    show "'' '' @ u = [] \<or> \<not> is_digit (hd ('' '' @ u))" by (simp add: is_digit_def)
  qed
  then obtain tl where c: "ms False (Grp (Plus Digit)) ('' ni'', ?ds @ '' '' @ u, [])
      = (rev ?ds @ '' ni'', '' '' @ u, [?ds]) # tl"
    by auto
  have d: "ms False (Plus Space) (rev ?ds @ '' ni'', '' '' @ u, [?ds]) = [(CHR '' '' # rev ?ds @ '' ni'', u, [?ds])]"
    using ms_Plus_Space_one [of u False "rev ?ds @ '' ni''" "[?ds]"] u by simp
  from e [of "CHR '' '' # rev ?ds @ '' ni''" "[?ds]"] obtain p' r' where
    s5: "\<exists>tl'. ms False unit_alt (CHR '' '' # rev ?ds @ '' ni'', u, [?ds]) = (p', r', [?ds, w]) # tl'"
    by auto
  note s4 = ms_Seq_first [OF d s5]
  note s3 = ms_Seq_first [OF c s4]
  note s2 = ms_Seq_first [OF b s3]
  note s1 = ms_Seq_first [OF a s2]
  have "\<exists>tl'. ms False rx_calc ([], ''in '' @ ?ds @ '' '' @ u, []) = (p', r', [?ds, w]) # tl'"
    unfolding rx_calc_def by (rule s1)
  then show ?thesis
    by (auto simp add: js_match_def)
qed

lemma calc_match_minutes:
  "\<exists>m0. js_match False rx_calc (trim (toLowerCase (''in '' @ show_nat n @ '' minutes'')))
         = Some (m0, [show_nat n, ''minute''])"
proof -
  have "trim (toLowerCase (''in '' @ show_nat n @ '' '' @ ''minutes'')) = ''in '' @ show_nat n @ '' '' @ ''minutes''"
    by (rule prep_in_n_unit) (simp_all add: toLowerCase_def lower_char_def is_space_def)
  moreover have "\<exists>m0. js_match False rx_calc (''in '' @ show_nat n @ '' '' @ ''minutes'') = Some (m0, [show_nat n, ''minute''])"
  proof (rule calc_match_unit)
    show "''minutes'' \<noteq> []" by simp
    show "\<not> is_space (hd ''minutes'')" by (simp add: is_space_def)
    show "\<exists>p' r' tl. ms False unit_alt (p, ''minutes'', c) = (p', r', c @ [''minute'']) # tl" for p c
      using unit_alt_minutes [of p "[]" c] by simp
  qed
  ultimately show ?thesis by simp
qed

lemma calc_match_days:
  "\<exists>m0. js_match False rx_calc (trim (toLowerCase (''in '' @ show_nat n @ '' days'')))
         = Some (m0, [show_nat n, ''day''])"
proof -
  have "trim (toLowerCase (''in '' @ show_nat n @ '' '' @ ''days'')) = ''in '' @ show_nat n @ '' '' @ ''days''"
    by (rule prep_in_n_unit) (simp_all add: toLowerCase_def lower_char_def is_space_def)
  moreover have "\<exists>m0. js_match False rx_calc (''in '' @ show_nat n @ '' '' @ ''days'') = Some (m0, [show_nat n, ''day''])"
  proof (rule calc_match_unit)
    show "''days'' \<noteq> []" by simp
    show "\<not> is_space (hd ''days'')" by (simp add: is_space_def)
    show "\<exists>p' r' tl. ms False unit_alt (p, ''days'', c) = (p', r', c @ [''day'']) # tl" for p c
      using unit_alt_days [of p "[]" c] by simp
  qed
  ultimately show ?thesis by simp
qed

section \<open>Rendering a date\<close>

lemma length_show_nat_2: "k < 100 \<Longrightarrow> length (show_nat k) \<le> 2"
proof (cases "k < 10")
  case True
  then show ?thesis by (simp add: show_nat.simps [of k])
next
  case False
  assume "k < 100"
  then have "k div 10 < 10" by simp
  then have "length (show_nat (k div 10)) = 1" by (simp add: show_nat.simps [of "k div 10"])
  with False show ?thesis by (simp add: show_nat.simps [of k])
qed

lemma length_pad2: "0 \<le> n \<Longrightarrow> n < 100 \<Longrightarrow> length (pad 2 n) = 2"
proof -
  assume "0 \<le> n" "n < 100"
  then have "nat n < 100" by simp
  from length_show_nat_2 [OF this] show ?thesis by (simp add: pad_def Let_def)
qed

lemma pad_digits: "c \<in> set (pad w n) \<Longrightarrow> is_digit c"
proof -
  assume "c \<in> set (pad w n)"
  then have "c = CHR ''0'' \<or> c \<in> set (show_nat (nat n))"
    by (auto simp add: pad_def Let_def)
  then show ?thesis
  proof
    assume "c = CHR ''0''" then show ?thesis by (simp add: is_digit_def)
  next
    assume "c \<in> set (show_nat (nat n))" then show ?thesis by (rule show_nat_digits)
  qed
qed

lemma iso_year_no_T: "c \<in> set (iso_year y) \<Longrightarrow> c \<noteq> CHR ''T''"
  by (auto simp add: iso_year_def dest!: pad_digits digit_not_T split: if_splits)

lemma split_T_0_prefix:
  "split_T_0 (iso_year y @ CHR ''-'' # pad 2 m @ CHR ''-'' # pad 2 d @ CHR ''T'' # rest)
     = iso_year y @ CHR ''-'' # pad 2 m @ CHR ''-'' # pad 2 d"
proof -
  let ?pre = "iso_year y @ ''-'' @ pad 2 m @ ''-'' @ pad 2 d"
  have "\<forall>c\<in>set ?pre. c \<noteq> CHR ''T''"
    by (auto dest: iso_year_no_T pad_digits [THEN digit_not_T])
  then have "takeWhile (\<lambda>c. c \<noteq> CHR ''T'') (?pre @ CHR ''T'' # rest) = ?pre"
    by (simp add: takeWhile_tail del: append_assoc append_Cons)
  then show ?thesis by (simp add: split_T_0_def)
qed

lemma hour_min_bounds:
  "0 \<le> HourFromTime t" "HourFromTime t < 24" "0 \<le> MinFromTime t" "MinFromTime t < 60"
  by (simp_all add: HourFromTime_def MinFromTime_def)

lemma date_and_time_Date:
  "date_and_time tza (Date u) = Inr \<lparr>date = ymd (Day u), time = hhmm (clock_minutes tza u)\<rparr>"
proof -
  let ?t = "LocalTime tza u"
  have l1: "length (pad 2 (HourFromTime ?t)) = 2"
    using hour_min_bounds [of ?t] by (intro length_pad2) simp_all
  have l2: "length (pad 2 (MinFromTime ?t)) = 2"
    using hour_min_bounds [of ?t] by (intro length_pad2) simp_all
  have tm: "take 5 (toTimeString tza (Date u)) = pad 2 (HourFromTime ?t) @ '':'' @ pad 2 (MinFromTime ?t)"
    by (simp add: toTimeString_def Let_def l1 l2)
  have hm: "hhmm (clock_minutes tza u) = pad 2 (HourFromTime ?t) @ '':'' @ pad 2 (MinFromTime ?t)"
    using hour_min_bounds [of ?t] by (simp add: hhmm_def clock_minutes_def)
  have dt: "split_T_0 (projr (toISOString (Date u))) = ymd (Day u)"
    unfolding toISOString_def
    by (simp add: split_T_0_prefix ymd_def YearFromTime_def MonthFromTime_def DateFromTime_def)
  show ?thesis
    using dt by (simp add: date_and_time_def tm hm toISOString_def)
qed

section \<open>Adding minutes\<close>

lemma clock_minutes_eq: "clock_minutes tza t = ((t + tza) div 60000) mod 1440"
proof -
  define b where "b = (t + tza) div 60000"
  have h: "(t + tza) div 3600000 = b div 60"
    unfolding b_def by (simp add: div_mult2_eq [symmetric])
  have "b mod (60 * 24) = 60 * (b div 60 mod 24) + b mod 60"
    by (rule zmod_zmult2_eq) simp
  then show ?thesis
    unfolding clock_minutes_def LocalTime_def HourFromTime_def MinFromTime_def
      msPerHour_def msPerMinute_def h b_def [symmetric]
    by simp
qed

lemma clock_minutes_add:
  "clock_minutes tza (t + n * msPerMinute) = (clock_minutes tza t + n) mod 1440"
proof -
  have "(t + n * 60000 + tza) div 60000 = (t + tza) div 60000 + n"
    by (simp add: algebra_simps)
  then show ?thesis
    unfolding clock_minutes_eq msPerMinute_def by (simp add: mod_add_left_eq)
qed

lemma Day_add_minutes:
  "Day (t + n * msPerMinute) = Day t + (clock_minutes 0 t + n) div 1440"
proof -
  define b where "b = t div 60000"
  have d: "\<And>x. x div 86400000 = (x div 60000) div (1440::int)"
    by (simp add: div_mult2_eq [symmetric])
  have a: "(t + n * 60000) div 60000 = b + n"
    unfolding b_def by (simp add: algebra_simps)
  have "b + n = (b mod 1440 + n) + 1440 * (b div 1440)" by simp
  then have "(b + n) div 1440 = ((b mod 1440 + n) + 1440 * (b div 1440)) div 1440" by simp
  also have "\<dots> = b div 1440 + (b mod 1440 + n) div 1440"
    by (rule div_mult_self2) simp
  finally have "(b + n) div 1440 = b div 1440 + (b mod 1440 + n) div 1440" .
  then show ?thesis
    unfolding Day_def msPerDay_def msPerMinute_def d a clock_minutes_eq
    by (simp add: b_def)
qed

lemma setMinutes_add:
  assumes "\<bar>t\<bar> \<le> 8640000000000000" "\<bar>tza\<bar> \<le> msPerDay" "0 \<le> n" "n \<le> 150000000000"
    and "\<bar>t + n * msPerMinute\<bar> \<le> 8640000000000000"
  shows "setMinutes tza (Date t) (num_add (getMinutes tza (Date t)) (Some n)) = Date (t + n * msPerMinute)"
proof -
  let ?t = "t + tza"
  have m: "fl (MinFromTime ?t + n) = MinFromTime ?t + n"
    using MinFromTime_range [of ?t] assms(3,4) by (intro fl_exact) simp
  have "MakeDate (Day ?t) (MakeTime (HourFromTime ?t) (MinFromTime ?t + n) (SecFromTime ?t) (msFromTime ?t))
      = ?t + (MinFromTime ?t + n - MinFromTime ?t) * msPerMinute"
  proof (rule time_decomp)
    show "\<bar>?t\<bar> \<le> 8640000086400000" using assms(1,2) by (simp add: msPerDay_def)
    show "0 \<le> MinFromTime ?t + n" using MinFromTime_range [of ?t] assms(3) by simp
    show "MinFromTime ?t + n \<le> 150000000059" using MinFromTime_range [of ?t] assms(4) by simp
    show "\<bar>?t + (MinFromTime ?t + n - MinFromTime ?t) * msPerMinute\<bar> < 9007199254740992"
      using assms(2,5) by (simp add: msPerDay_def msPerMinute_def)
  qed
  then have "MakeDate (Day ?t) (MakeTime (HourFromTime ?t) (MinFromTime ?t + n) (SecFromTime ?t) (msFromTime ?t))
      = ?t + n * msPerMinute" by simp
  then show ?thesis
    using assms(5)
    by (simp add: setMinutes_def getMinutes_def num_add_def Let_def m UTC_def LocalTime_def TimeClip_def)
qed

section \<open>The year of a day number, and adding days\<close>

lemma div_lower: "(k::int) * (a div k) \<le> a" if "0 < k"
proof -
  have "k * (a div k) + a mod k = a" by simp
  moreover have "0 \<le> a mod k" using that by simp
  ultimately show ?thesis by linarith
qed

lemma div_upper: "a < (k::int) * (a div k) + k" if "0 < k"
proof -
  have "k * (a div k) + a mod k = a" by simp
  moreover have "a mod k < k" using that by simp
  ultimately show ?thesis by linarith
qed

lemma DayFromYear_low_aux:
  fixes d e q1 q2 q3 :: int
  assumes "146097 * e \<le> 400 * d" "4 * q1 \<le> e" "e + 68 < 100 * q2 + 100" "400 * q3 \<le> e + 368"
  shows "365 * (e - 1) + q1 - q2 + q3 \<le> d"
proof -
  have a: "400 * q1 \<le> 100 * e" using assms(2) by simp
  have b: "4 * e - 128 < 400 * q2" using assms(3) by simp
  have "400 * (365 * (e - 1) + q1 - q2 + q3) \<le> 146097 * e"
    using a b assms(4) by simp
  with assms(1) have "400 * (365 * (e - 1) + q1 - q2 + q3) \<le> 400 * d" by simp
  then show ?thesis by simp
qed

lemma DayFromYear_high_aux:
  fixes d e q1 q2 q3 :: int
  assumes "400 * d < 146097 * e + 146097" "e + 3 < 4 * q1 + 4" "100 * q2 \<le> e + 71" "e + 371 < 400 * q3 + 400"
  shows "d < 365 * (e + 2) + q1 - q2 + q3"
proof -
  have a: "100 * e - 100 < 400 * q1" using assms(2) by simp
  have b: "400 * q2 \<le> 4 * e + 284" using assms(3) by simp
  have "146097 * e + 146097 \<le> 400 * (365 * (e + 2) + q1 - q2 + q3)"
    using a b assms(4) by simp
  with assms(1) have "400 * d < 400 * (365 * (e + 2) + q1 - q2 + q3)" by simp
  then show ?thesis by simp
qed

lemma DayFromYear_estimate:
  "DayFromYear (1970 + (400 * d) div 146097 - 1) \<le> d"
  "d < DayFromYear (1970 + (400 * d) div 146097 + 2)"
proof -
  define e where "e = (400 * d) div 146097"
  have e1: "146097 * e \<le> 400 * d" unfolding e_def by (rule div_lower) simp
  have e2: "400 * d < 146097 * e + 146097" unfolding e_def by (rule div_upper) simp
  have "365 * (e - 1) + e div 4 - (e + 68) div 100 + (e + 368) div 400 \<le> d"
  proof (rule DayFromYear_low_aux [OF e1])
    show "4 * (e div 4) \<le> e" by (rule div_lower) simp
    show "e + 68 < 100 * ((e + 68) div 100) + 100" by (rule div_upper) simp
    show "400 * ((e + 368) div 400) \<le> e + 368" by (rule div_lower) simp
  qed
  then show "DayFromYear (1970 + (400 * d) div 146097 - 1) \<le> d"
    by (simp add: DayFromYear_def e_def add.commute)
  have "d < 365 * (e + 2) + (e + 3) div 4 - (e + 71) div 100 + (e + 371) div 400"
  proof (rule DayFromYear_high_aux [OF e2])
    show "e + 3 < 4 * ((e + 3) div 4) + 4" by (rule div_upper) simp
    show "100 * ((e + 71) div 100) \<le> e + 71" by (rule div_lower) simp
    show "e + 371 < 400 * ((e + 371) div 400) + 400" by (rule div_upper) simp
  qed
  then show "d < DayFromYear (1970 + (400 * d) div 146097 + 2)"
    by (simp add: DayFromYear_def e_def add.commute)
qed

lemma YearFromDay_bounds:
  "DayFromYear (YearFromDay d) \<le> d \<and> d < DayFromYear (YearFromDay d + 1)"
  using DayFromYear_estimate [of d]
  by (simp add: YearFromDay_def Let_def)

lemma DayFromYear_step_le: "DayFromYear (y + 1) \<le> DayFromYear y + 367"
proof -
  define a where "a = (y - 1969) div 4"
  define a' where "a' = (y + 1 - 1969) div 4"
  define b where "b = (y - 1901) div 100"
  define b' where "b' = (y + 1 - 1901) div 100"
  define c where "c = (y - 1601) div 400"
  define c' where "c' = (y + 1 - 1601) div 400"
  have "y - 1969 < 4 * a + 4" unfolding a_def by (rule div_upper) simp
  moreover have "4 * a' \<le> y + 1 - 1969" unfolding a'_def by (rule div_lower) simp
  ultimately have 1: "a' \<le> a + 1" by linarith
  have "100 * b \<le> y - 1901" unfolding b_def by (rule div_lower) simp
  moreover have "y + 1 - 1901 < 100 * b' + 100" unfolding b'_def by (rule div_upper) simp
  ultimately have 2: "b \<le> b'" by linarith
  have "y - 1601 < 400 * c + 400" unfolding c_def by (rule div_upper) simp
  moreover have "400 * c' \<le> y + 1 - 1601" unfolding c'_def by (rule div_lower) simp
  ultimately have 3: "c' \<le> c + 1" by linarith
  have "365 * (y + 1 - 1970) + a' - b' + c' \<le> 365 * (y - 1970) + a - b + c + 367"
    using 1 2 3 by simp
  then show ?thesis
    unfolding DayFromYear_def a_def a'_def b_def b'_def c_def c'_def .
qed

lemma DayWithinYear_range: "0 \<le> DayWithinYear d" "DayWithinYear d \<le> 366"
  using YearFromDay_bounds [of d] DayFromYear_step_le [of "YearFromDay d"]
  by (simp_all add: DayWithinYear_def)

lemma InLeapYear_range: "0 \<le> InLeapYear y" "InLeapYear y \<le> 1"
  by (simp_all add: InLeapYear_def)

lemma MonthStart_range: "0 \<le> leap \<Longrightarrow> leap \<le> 1 \<Longrightarrow> 0 \<le> MonthStart leap m \<and> MonthStart leap m \<le> 335"
  by (simp add: MonthStart_def)

lemma MonthFromDay_range: "0 \<le> MonthFromDay d \<and> MonthFromDay d \<le> 11"
  by (simp add: MonthFromDay_def Let_def)

lemma DateFromDay_range: "\<bar>DateFromDay d\<bar> \<le> 367"
  using DayWithinYear_range [of d]
    MonthStart_range [OF InLeapYear_range, of "YearFromDay d" "MonthFromDay d"]
  unfolding DateFromDay_def by arith

lemma YearFromDay_small: "\<bar>d\<bar> \<le> 100000002 \<Longrightarrow> \<bar>YearFromDay d\<bar> \<le> 1000000"
proof -
  assume d: "\<bar>d\<bar> \<le> 100000002"
  define e where "e = (400 * d) div 146097"
  have e1: "146097 * e \<le> 400 * d" unfolding e_def by (rule div_lower) simp
  have e2: "400 * d < 146097 * e + 146097" unfolding e_def by (rule div_upper) simp
  from d e1 e2 have "\<bar>e\<bar> \<le> 300000" by linarith
  then show ?thesis
    unfolding YearFromDay_def Let_def e_def [symmetric] by auto
qed

lemma MakeDay_inverse:
  assumes "\<bar>d\<bar> \<le> 100000002" "\<bar>n\<bar> \<le> 200000001"
  shows "MakeDay (YearFromDay d) (MonthFromDay d) (DateFromDay d + n) = d + n"
proof -
  have m: "MonthFromDay d div 12 = 0" "MonthFromDay d mod 12 = MonthFromDay d"
    using MonthFromDay_range [of d] by simp_all
  have y: "fl (YearFromDay d) = YearFromDay d"
    using YearFromDay_small [OF assms(1)] by (intro fl_exact) simp
  have s: "DayFromYear (YearFromDay d) + MonthStart (InLeapYear (YearFromDay d)) (MonthFromDay d)
      + (DateFromDay d + n) = d + n + 1"
    by (simp add: DateFromDay_def DayWithinYear_def)
  have a: "fl (d + n + 1) = d + n + 1" using assms by (intro fl_exact) simp
  have b: "fl (d + n + 1 - 1) = d + n" using assms by (simp add: fl_exact)
  show ?thesis
    unfolding MakeDay_def Let_def m add_0_right y s a b ..
qed

lemma day_decomp:
  assumes "\<bar>t\<bar> \<le> 8640000086400000" "\<bar>t + n * msPerDay\<bar> \<le> 8640000086400000"
  shows "MakeDate (Day t + n) (TimeWithinDay t) = t + n * msPerDay"
proof -
  define q where "q = t div 86400000"
  define r where "r = t mod 86400000"
  have t: "t = q * 86400000 + r" unfolding q_def r_def by simp
  have r: "0 \<le> r" "r < 86400000" unfolding r_def by simp_all
  have s: "(q + n) * 86400000 + r = t + n * 86400000" using t by (simp add: algebra_simps)
  have 1: "\<bar>(q + n) * 86400000\<bar> < 9007199254740992"
    using s r assms(2) by (simp add: msPerDay_def)
  have 2: "\<bar>(q + n) * 86400000 + r\<bar> < 9007199254740992"
    unfolding s using assms(2) by (simp add: msPerDay_def)
  show ?thesis
    unfolding Day_def TimeWithinDay_def msPerDay_def q_def [symmetric] r_def [symmetric]
      MakeDate_exact [OF 1 2] by (rule s)
qed

lemma Day_small: "\<bar>t\<bar> \<le> 8640000086400000 \<Longrightarrow> \<bar>Day t\<bar> \<le> 100000002"
proof -
  assume t: "\<bar>t\<bar> \<le> 8640000086400000"
  have 1: "86400000 * (t div 86400000) \<le> t" by (rule div_lower) simp
  have 2: "t < 86400000 * (t div 86400000) + 86400000" by (rule div_upper) simp
  from t 1 2 show ?thesis unfolding Day_def msPerDay_def by linarith
qed

lemma setDate_add:
  assumes "\<bar>t\<bar> \<le> 8640000000000000" "\<bar>tza\<bar> \<le> msPerDay" "0 \<le> n"
    and "\<bar>t + n * msPerDay\<bar> \<le> 8640000000000000"
  shows "setDate tza (Date t) (num_add (getDate tza (Date t)) (Some n)) = Date (t + n * msPerDay)"
proof -
  let ?t = "t + tza"
  have tb: "\<bar>?t\<bar> \<le> 8640000086400000" using assms(1,2) by (simp add: msPerDay_def)
  have nb: "n \<le> 200000000" using assms(1,3,4) by (simp add: msPerDay_def)
  have db: "\<bar>Day ?t\<bar> \<le> 100000002" by (rule Day_small [OF tb])
  have dt: "fl (DateFromDay (Day ?t) + n) = DateFromDay (Day ?t) + n"
    using DateFromDay_range [of "Day ?t"] assms(3) nb by (intro fl_exact) simp
  have md: "MakeDay (YearFromDay (Day ?t)) (MonthFromDay (Day ?t)) (DateFromDay (Day ?t) + n) = Day ?t + n"
    using db assms(3) nb by (intro MakeDay_inverse) simp_all
  have dd: "MakeDate (Day ?t + n) (TimeWithinDay ?t) = ?t + n * msPerDay"
    using tb assms(2,4) by (intro day_decomp) (simp_all add: msPerDay_def)
  show ?thesis
    using assms(4)
    by (simp add: setDate_def getDate_def num_add_def Let_def YearFromTime_def MonthFromTime_def
      DateFromTime_def dt md dd UTC_def LocalTime_def TimeClip_def)
qed

lemma clock_minutes_add_days: "clock_minutes tza (t + n * msPerDay) = clock_minutes tza t"
proof -
  have "(t + n * 86400000 + tza) div 60000 = (t + tza) div 60000 + n * 1440"
    by (simp add: algebra_simps)
  then show ?thesis
    unfolding clock_minutes_eq msPerDay_def by simp
qed

lemma Day_add_days: "Day (t + n * msPerDay) = Day t + n"
  by (simp add: Day_def msPerDay_def)

lemma days_after:
  assumes "\<bar>t\<bar> \<le> 8640000000000000" "\<bar>tza\<bar> \<le> msPerDay"
    and "\<bar>t + int n * msPerDay\<bar> \<le> 8640000000000000"
  shows "calculateRelativeTime (''in '' @ show_nat n @ '' days'') tza (Date t)
      = Inr \<lparr>date = ymd (Day t + int n), time = hhmm (clock_minutes tza t)\<rparr>"
proof -
  from calc_match_days [of n] obtain m0 where
    m: "js_match False rx_calc (trim (toLowerCase (''in '' @ show_nat n @ '' days'')))
          = Some (m0, [show_nat n, ''day''])" by auto
  have nb: "int n \<le> 200000000" using assms(1,3) by (simp add: msPerDay_def)
  then have p: "parseInt (show_nat n) = Some (int n)" by (intro parseInt_show_nat) simp
  have target: "setDate tza (Date t) (num_add (getDate tza (Date t)) (Some (int n)))
      = Date (t + int n * msPerDay)"
    using assms by (intro setDate_add) simp_all
  have "calculateRelativeTime (''in '' @ show_nat n @ '' days'') tza (Date t)
      = date_and_time tza (Date (t + int n * msPerDay))"
    unfolding calculateRelativeTime_def Let_def m
    by (simp add: p target)
  then show ?thesis
    by (simp add: date_and_time_Date clock_minutes_add_days Day_add_days)
qed

section \<open>Phrases that the pattern of calculateRelativeTime does not match\<close>

lemma search_skip:
  "x \<noteq> CHR ''i'' \<Longrightarrow> search False rx_calc p (x # xs) = search False rx_calc (x # p) xs"
  by (cases xs) (simp_all add: rx_calc_def canon_def)

lemma search_skip_digits:
  "\<forall>c\<in>set ds. is_digit c \<Longrightarrow> search False rx_calc p (ds @ r) = search False rx_calc (rev ds @ p) r"
proof (induction ds arbitrary: p)
  case Nil
  then show ?case by simp
next
  case (Cons d ds)
  then have d: "d \<noteq> CHR ''i''" and ds: "\<forall>c\<in>set ds. is_digit c"
    by (simp_all add: digit_not_i)
  have "search False rx_calc p ((d # ds) @ r) = search False rx_calc (d # p) (ds @ r)"
    by (simp only: append_Cons search_skip [OF d])
  also have "\<dots> = search False rx_calc (rev ds @ d # p) r"
    by (rule Cons.IH [OF ds])
  finally show ?case by simp
qed

lemma no_match_from_now:
  "js_match False rx_calc (show_nat n @ '' minutes from now'') = None"
proof -
  have "search False rx_calc (rev (show_nat n) @ []) '' minutes from now'' = None"
    by (simp add: rx_calc_def canon_def is_space_def is_digit_def)
  then show ?thesis
    unfolding js_match_def using search_skip_digits [of "show_nat n" "[]" "'' minutes from now''"]
    by (simp add: show_nat_digits)
qed

lemma prep_from_now:
  "trim (toLowerCase (show_nat n @ '' minutes from now'')) = show_nat n @ '' minutes from now''"
proof -
  define s where "s = show_nat n @ '' minutes from now''"
  have low: "toLowerCase s = s"
    using lower_show_nat [of n] by (simp add: s_def toLowerCase_def lower_char_def)
  have "\<not> is_space (hd s)"
    using hd_show_nat_digit [of n] by (simp add: s_def show_nat_nonempty digit_not_space)
  moreover have "s \<noteq> []" by (simp add: s_def)
  ultimately have front: "dropWhile is_space s = s" by (cases s) auto
  have "\<not> is_space (hd (rev s))" by (simp add: s_def is_space_def)
  then have rear: "dropWhile is_space (rev s) = rev s"
    by (cases "rev s") auto
  show ?thesis
    unfolding s_def [symmetric] low trim_def front rear by simp
qed

section \<open>A successful call of processSchedulePrompt\<close>

lemma process_success:
  assumes "success (processSchedulePrompt parse reply p tza clock)"
  shows "\<exists>txt span caps d d'. reply = Inr txt \<and> js_match False rx_json txt = Some (span, caps)
           \<and> parse span = Inr d \<and> postProcessScheduleData d p tza clock = Inr d'
           \<and> validateScheduleData d' = Inr Accept
           \<and> data (processSchedulePrompt parse reply p tza clock) = Some d'"
  using assms unfolding processSchedulePrompt_def
  by (auto simp add: failure_def split: sum.splits option.splits verdict.splits prod.splits)

section \<open>Objects and validation\<close>

lemma get_set_prop: "get_prop (set_prop d k v) k' = (if k' = k then Some v else get_prop d k')"
  by (induction d) (auto simp add: get_prop_def)

lemma validate_depends:
  assumes "get_prop d ''type'' = get_prop d' ''type''" "get_prop d ''title'' = get_prop d' ''title''"
    "get_prop d ''date'' = get_prop d' ''date''" "get_prop d ''time'' = get_prop d' ''time''"
    "get_prop d ''priority'' = get_prop d' ''priority''"
  shows "validateScheduleData d = validateScheduleData d'"
  unfolding validateScheduleData_def missing_required.simps assms ..



section \<open>Detection and extraction on the phrases of the specification\<close>

text \<open>
  Claim C9.  \<^verbatim>\<open>hasRelativeTimeExpression("Remind me tomorrow")\<close> is true while
  \<^verbatim>\<open>extractRelativeTimeExpression("Remind me tomorrow")\<close> is \<^verbatim>\<open>null\<close>: a qualitative phrase
  is detected but not extracted.  \<^verbatim>\<open>hasRelativeTimeExpression("in 2 hours")\<close> is true, and
  \<^verbatim>\<open>extractRelativeTimeExpression("Call me in 2 hours")\<close> returns the substring
  \<^verbatim>\<open>in 2 hours\<close>.
\<close>

theorem detect_and_extract_examples:
  "hasRelativeTimeExpression ''Remind me tomorrow''
   \<and> extractRelativeTimeExpression ''Remind me tomorrow'' = None
   \<and> hasRelativeTimeExpression ''in 2 hours''
   \<and> extractRelativeTimeExpression ''Call me in 2 hours'' = Some ''in 2 hours''"
  by code_simp

section \<open>Claim C1: a phrase in minutes\<close>

text \<open>
  Claim C1, as amended.  Let \<open>t\<close> be the time value of the reference instant, let the
  zone offset be at most a day, let the amount \<open>n\<close> be at most 150000000000 (so that
  \<open>n\<close> minutes and a day are less than \<open>2^53\<close> milliseconds and the arithmetic of the
  engine is exact; every amount that keeps a reference instant from 1970 on in range
  is that small), and let \<open>t\<close> plus \<open>n\<close> minutes still be a time value of a \<^verbatim>\<open>Date\<close>.
  Then \<^verbatim>\<open>calculateRelativeTime\<close> on the phrase \<^verbatim>\<open>in n minutes\<close> returns a result, and its
  time is the local clock time of the reference instant moved forward by exactly \<open>n\<close>
  minutes (modulo a day).  When local time is UTC, its date is the calendar date of the
  reference day plus the days carried over midnight.
\<close>

theorem minutes_after:
  assumes "\<bar>t\<bar> \<le> 8640000000000000" and "\<bar>tza\<bar> \<le> msPerDay" and "int n \<le> 150000000000"
    and "\<bar>t + int n * msPerMinute\<bar> \<le> 8640000000000000"
  shows "\<exists>tc. calculateRelativeTime (''in '' @ show_nat n @ '' minutes'') tza (Date t) = Inr tc
      \<and> time tc = hhmm ((clock_minutes tza t + int n) mod 1440)
      \<and> (tza = 0 \<longrightarrow> date tc = ymd (Day t + (clock_minutes 0 t + int n) div 1440))"
proof -
  from calc_match_minutes [of n] obtain m0 where
    m: "js_match False rx_calc (trim (toLowerCase (''in '' @ show_nat n @ '' minutes'')))
          = Some (m0, [show_nat n, ''minute''])" by auto
  have p: "parseInt (show_nat n) = Some (int n)"
    using assms(3) by (intro parseInt_show_nat) simp
  have target: "setMinutes tza (Date t) (num_add (getMinutes tza (Date t)) (Some (int n)))
      = Date (t + int n * msPerMinute)"
    using assms by (intro setMinutes_add) simp_all
  have "calculateRelativeTime (''in '' @ show_nat n @ '' minutes'') tza (Date t)
      = date_and_time tza (Date (t + int n * msPerMinute))"
    unfolding calculateRelativeTime_def Let_def m
    by (simp add: p target)
  then show ?thesis
    by (simp add: date_and_time_Date clock_minutes_add Day_add_minutes)
qed

text \<open>The example of the specification: 2024-01-15 23:50 and twenty minutes, in UTC.\<close>

theorem minutes_after_witness:
  "\<exists>tc. calculateRelativeTime ''in 20 minutes'' 0 (Date 1705362600000) = Inr tc
      \<and> time tc = ''00:10'' \<and> date tc = ''2024-01-16''"
proof -
  have a: "\<bar>1705362600000 :: int\<bar> \<le> 8640000000000000" by simp
  have b: "\<bar>0 :: int\<bar> \<le> msPerDay" by (simp add: msPerDay_def)
  have c: "int 20 \<le> 150000000000" by simp
  have d: "\<bar>1705362600000 + int 20 * msPerMinute\<bar> \<le> 8640000000000000"
    by (simp add: msPerMinute_def)
  have s: "show_nat 20 = ''20''" by code_simp
  have h: "hhmm ((clock_minutes 0 1705362600000 + int 20) mod 1440) = ''00:10''" by code_simp
  have y: "ymd (Day 1705362600000 + (clock_minutes 0 1705362600000 + int 20) div 1440) = ''2024-01-16''"
    by code_simp
  from minutes_after [OF a b c d] show ?thesis
    unfolding s h y by simp
qed

text \<open>
  The claim as the specification states it fails in three ways.  In a zone five and a
  half hours east of UTC, with a local clock that reads 2024-01-15 23:50, the phrase
  \<^verbatim>\<open>in 20 minutes\<close> gives the time 00:10 with the date 2024-01-15: the date is taken
  from the UTC rendering (see claim C2).  An amount that leaves the range of \<^verbatim>\<open>Date\<close>
  makes \<^verbatim>\<open>toISOString\<close> throw.  And at the far end of the range the sum of the
  milliseconds is rounded to a double: from the instant \<open>- 8639999999940001\<close>, whose
  clock reads 00:00:59.999, the statements of the \<^verbatim>\<open>minutes\<close> case with the amount
  280000000000 give the clock time 10:41, where 280000000000 minutes after 00:00 is
  10:40.
\<close>

theorem minutes_after_counterexample:
  "getFullYear 19800000 (Date 1705342800000) = Some 2024
   \<and> getMonth 19800000 (Date 1705342800000) = Some 0
   \<and> getDate 19800000 (Date 1705342800000) = Some 15
   \<and> getHours 19800000 (Date 1705342800000) = Some 23
   \<and> getMinutes 19800000 (Date 1705342800000) = Some 50
   \<and> calculateRelativeTime ''in 20 minutes'' 19800000 (Date 1705342800000)
       = Inr \<lparr>date = ''2024-01-15'', time = ''00:10''\<rparr>
   \<and> calculateRelativeTime ''in 99999999999999999999 minutes'' 0 (Date 1705362600000)
       = Inl (RangeError ''Invalid time value'')
   \<and> setMinutes 0 (Date (- 8639999999940001))
         (num_add (getMinutes 0 (Date (- 8639999999940001))) (parseInt ''280000000000''))
       = Date 8160000000060000
   \<and> take 5 (toTimeString 0 (Date 8160000000060000)) = ''10:41''
   \<and> hhmm ((clock_minutes 0 (- 8639999999940001) + 280000000000) mod 1440) = ''10:40''"
  by code_simp

section \<open>Claim C2: a phrase in days, and where the date comes from\<close>

text \<open>
  Claim C2 says that the date returned for \<^verbatim>\<open>in N days\<close> is the date of the reference
  instant plus \<open>N\<close> days with the time unchanged, and that date and time are both
  taken from the local wall clock of the resulting instant.  Lemma \<open>days_after\<close> shows
  what the code computes: the time is the local clock time, and the date is the UTC
  calendar date.  In a zone five and a half hours east of UTC, with a local clock that
  reads 2024-01-16 01:30, \<^verbatim>\<open>in 1 days\<close> gives the date 2024-01-16 and the time 01:30,
  where the local wall clock of the resulting instant reads 2024-01-17 01:30; the
  reference instant itself is rendered as 2024-01-15 01:30.
\<close>

theorem days_date_from_utc:
  "getFullYear 19800000 (Date 1705348800000) = Some 2024
   \<and> getMonth 19800000 (Date 1705348800000) = Some 0
   \<and> getDate 19800000 (Date 1705348800000) = Some 16
   \<and> getHours 19800000 (Date 1705348800000) = Some 1
   \<and> getMinutes 19800000 (Date 1705348800000) = Some 30
   \<and> calculateRelativeTime ''in 1 days'' 19800000 (Date 1705348800000)
       = Inr \<lparr>date = ''2024-01-16'', time = ''01:30''\<rparr>
   \<and> getCurrentDateTime 19800000 (Date 1705348800000)
       = Inr \<lparr>date = ''2024-01-15'', time = ''01:30''\<rparr>"
  by code_simp

section \<open>Claim C3: phrases that end in "from now"\<close>

text \<open>
  Claim C3 says that \<^verbatim>\<open>calculateRelativeTime\<close> parses a phrase of the form
  \<^verbatim>\<open>N unit from now\<close>, which \<^verbatim>\<open>extractRelativeTimeExpression\<close> returns, and adds \<open>N\<close> units
  to the reference instant.  The pattern of \<^verbatim>\<open>calculateRelativeTime\<close> asks for the
  word \<^verbatim>\<open>in\<close> before the amount, so such a phrase never matches: the prompt
  \<^verbatim>\<open>remind me 5 minutes from now\<close> is detected, the phrase \<^verbatim>\<open>5 minutes from now\<close> is
  extracted, and the result is the date and time of the reference instant itself, for
  this amount and for every other one.
\<close>

theorem from_now_not_parsed:
  "hasRelativeTimeExpression ''remind me 5 minutes from now''
   \<and> extractRelativeTimeExpression ''remind me 5 minutes from now'' = Some ''5 minutes from now''
   \<and> calculateRelativeTime ''5 minutes from now'' 0 (Date 1705362600000)
       = Inr \<lparr>date = ''2024-01-15'', time = ''23:50''\<rparr>
   \<and> getCurrentDateTime 0 (Date 1705362600000) = Inr \<lparr>date = ''2024-01-15'', time = ''23:50''\<rparr>
   \<and> calculateRelativeTime (show_nat n @ '' minutes from now'') tza (Date t)
       = getCurrentDateTime tza (Date t)"
proof -
  have general: "calculateRelativeTime (show_nat n @ '' minutes from now'') tza (Date t)
       = getCurrentDateTime tza (Date t)"
    by (simp add: calculateRelativeTime_def getCurrentDateTime_def prep_from_now no_match_from_now)
  have "hasRelativeTimeExpression ''remind me 5 minutes from now''" by code_simp
  moreover have "extractRelativeTimeExpression ''remind me 5 minutes from now'' = Some ''5 minutes from now''"
    by code_simp
  moreover have "calculateRelativeTime ''5 minutes from now'' 0 (Date 1705362600000)
       = Inr \<lparr>date = ''2024-01-15'', time = ''23:50''\<rparr>" by code_simp
  moreover have "getCurrentDateTime 0 (Date 1705362600000) = Inr \<lparr>date = ''2024-01-15'', time = ''23:50''\<rparr>"
    by code_simp
  ultimately show ?thesis using general by simp
qed

section \<open>The fallback of calculateRelativeTime, and the failures of processSchedulePrompt\<close>

text \<open>
  What the code does on a phrase that its pattern does not match: it returns normally,
  with the UTC calendar date of the reference instant and its local clock time.  And a
  successful result of \<^verbatim>\<open>processSchedulePrompt\<close> means that the model replied, that a span
  was found and parsed, that post-processing returned and that validation accepted: no
  error of these steps is absorbed.
\<close>

lemma fallback_and_failures:
  "(js_match False rx_calc (trim (toLowerCase e)) = None \<longrightarrow>
      calculateRelativeTime e tza (Date t)
        = Inr \<lparr>date = ymd (Day t), time = hhmm (clock_minutes tza t)\<rparr>)
   \<and> (success (processSchedulePrompt parse reply p tza' clock) \<longrightarrow>
        (\<exists>txt span caps d d'. reply = Inr txt \<and> js_match False rx_json txt = Some (span, caps)
           \<and> parse span = Inr d \<and> postProcessScheduleData d p tza' clock = Inr d'
           \<and> validateScheduleData d' = Inr Accept
           \<and> data (processSchedulePrompt parse reply p tza' clock) = Some d'))"
  using process_success [of parse reply p tza' clock]
  by (auto simp add: calculateRelativeTime_def date_and_time_Date)

section \<open>Claim C4: the fallback returns the date of another day\<close>

text \<open>
  Claim C4 says that for a phrase that does not parse, \<^verbatim>\<open>calculateRelativeTime\<close> returns
  the reference instant's own date and time unchanged.  The phrase
  \<^verbatim>\<open>see you tomorrow\<close> is not matched.  In a zone five and a half hours east of UTC,
  with a reference instant whose local clock reads 2024-01-16 01:30, the result has
  the time 01:30 and the date 2024-01-15: the time is the local one and the date is
  taken from the UTC rendering, as under claim C2.
\<close>

theorem fallback_date_from_utc:
  "js_match False rx_calc (trim (toLowerCase ''see you tomorrow'')) = None
   \<and> getFullYear 19800000 (Date 1705348800000) = Some 2024
   \<and> getMonth 19800000 (Date 1705348800000) = Some 0
   \<and> getDate 19800000 (Date 1705348800000) = Some 16
   \<and> getHours 19800000 (Date 1705348800000) = Some 1
   \<and> getMinutes 19800000 (Date 1705348800000) = Some 30
   \<and> calculateRelativeTime ''see you tomorrow'' 19800000 (Date 1705348800000)
       = Inr \<lparr>date = ''2024-01-15'', time = ''01:30''\<rparr>"
  by code_simp

section \<open>Claim C5: what validateScheduleData rejects and accepts\<close>



section \<open>Claim C10: the optional fields that validateScheduleData never reads\<close>

text \<open>
  Claim C10.  \<^verbatim>\<open>validateScheduleData\<close> reads the four required fields and the priority,
  and nothing else: a candidate that it accepts is still accepted after any other
  property (duration, participants, location, category, description, metadata, ...)
  is set to any value at all, a zero or negative duration included.
\<close>

theorem validate_ignores_optional:
  assumes "validateScheduleData d = Inr Accept"
    and "k \<notin> set [''type'', ''title'', ''date'', ''time'', ''priority'']"
  shows "validateScheduleData (set_prop d k v) = Inr Accept"
proof -
  have "validateScheduleData (set_prop d k v) = validateScheduleData d"
    using assms(2) by (intro validate_depends) (auto simp add: get_set_prop)
  with assms(1) show ?thesis by simp
qed

theorem validate_ignores_optional_witness:
  "validateScheduleData
     (set_prop [(''type'', JStr ''meeting''), (''title'', JStr ''x''),
                (''date'', JStr ''2024-01-15''), (''time'', JStr ''09:00''),
                (''duration'', JNum 30)] ''duration'' (JNum (- 5))) = Inr Accept
   \<and> validateScheduleData
     (set_prop [(''type'', JStr ''meeting''), (''title'', JStr ''x''),
                (''date'', JStr ''2024-01-15''), (''time'', JStr ''09:00''),
                (''duration'', JNum 30)] ''participants'' (JObj [(''toString'', JNull)])) = Inr Accept"
proof -
  let ?d = "[(''type'', JStr ''meeting''), (''title'', JStr ''x''),
                (''date'', JStr ''2024-01-15''), (''time'', JStr ''09:00''),
                (''duration'', JNum 30)]"
  have a: "validateScheduleData ?d = Inr Accept" by code_simp
  have k1: "''duration'' \<notin> set [''type'', ''title'', ''date'', ''time'', ''priority'']" by simp
  have k2: "''participants'' \<notin> set [''type'', ''title'', ''date'', ''time'', ''priority'']" by simp
  from validate_ignores_optional [OF a k1, of "JNum (- 5)"]
       validate_ignores_optional [OF a k2, of "JObj [(''toString'', JNull)]"]
  show ?thesis by simp
qed

section \<open>Claim C6: what the caller learns from a rejection\<close>

text \<open>
  Claim C6, as amended.  Whenever the parsed and post-processed candidate is rejected by
  \<^verbatim>\<open>validateScheduleData\<close>, whatever the reason \<open>m\<close> that was logged, the result of
  \<^verbatim>\<open>processSchedulePrompt\<close> is a failure whose error is the fixed message
  \<^verbatim>\<open>Invalid schedule data structure\<close>: the reason reaches the error log only.
\<close>

theorem rejection_message_is_generic:
  assumes "js_match False rx_json rtext = Some (span, caps)" "parse span = Inr d"
    and "postProcessScheduleData d p tza clock = Inr d'"
    and "validateScheduleData d' = Inr (Reject m)"
  shows "processSchedulePrompt parse (Inr rtext) p tza clock
      = \<lparr>success = False, data = None, error = Some ''Invalid schedule data structure''\<rparr>"
  using assms by (simp add: processSchedulePrompt_def failure_def)

theorem rejection_message_is_generic_witness:
  "processSchedulePrompt
        (\<lambda>s. Inr [(''type'', JStr ''task''), (''title'', JStr ''x''),
                    (''date'', JStr ''2024-01-15''), (''time'', JStr ''9:00'')])
        (Inr ''ok {} done'') ''party'' 0 1705362600000
     = \<lparr>success = False, data = None, error = Some ''Invalid schedule data structure''\<rparr>"
proof -
  let ?d = "[(''type'', JStr ''task''), (''title'', JStr ''x''),
                    (''date'', JStr ''2024-01-15''), (''time'', JStr ''9:00'')]"
  have a: "js_match False rx_json ''ok {} done'' = Some (''{}'', [])" by code_simp
  have b: "(\<lambda>s. Inr ?d) ''{}'' = (Inr ?d :: error + obj)" by simp
  have c: "postProcessScheduleData ?d ''party'' 0 1705362600000 = Inr ?d" by code_simp
  have d: "validateScheduleData ?d = Inr (Reject ''Invalid time format: 9:00'')" by code_simp
  show ?thesis by (rule rejection_message_is_generic [OF a b c d])
qed

text \<open>
  The claim as the specification states it, that the failure carries the name of the
  offending field or the offending value, fails: a candidate with the type
  \<^verbatim>\<open>birthday\<close> and a candidate without a title are rejected for different logged
  reasons and give the same failure result.
\<close>

theorem rejection_message_is_generic_counterexample:
  "validateScheduleData [(''type'', JStr ''birthday''), (''title'', JStr ''x''),
        (''date'', JStr ''2024-01-15''), (''time'', JStr ''09:00'')]
     = Inr (Reject ''Invalid type: birthday'')
   \<and> processSchedulePrompt
        (\<lambda>s. Inr [(''type'', JStr ''birthday''), (''title'', JStr ''x''),
                    (''date'', JStr ''2024-01-15''), (''time'', JStr ''09:00'')])
        (Inr ''{}'') ''party'' 0 1705362600000
     = \<lparr>success = False, data = None, error = Some ''Invalid schedule data structure''\<rparr>
   \<and> validateScheduleData [(''type'', JStr ''task''),
        (''date'', JStr ''2024-01-15''), (''time'', JStr ''09:00'')]
     = Inr (Reject ''Missing required field: title'')
   \<and> processSchedulePrompt
        (\<lambda>s. Inr [(''type'', JStr ''task''),
                    (''date'', JStr ''2024-01-15''), (''time'', JStr ''09:00'')])
        (Inr ''{}'') ''party'' 0 1705362600000
     = \<lparr>success = False, data = None, error = Some ''Invalid schedule data structure''\<rparr>"
  by code_simp

section \<open>The span that processSchedulePrompt parses\<close>

lemma lit_close:
  "ms False (Lit ''}'') (p, x # xs, c) = (if x = CHR ''}'' then [(CHR ''}'' # p, xs, c)] else [])"
  by (simp add: canon_def)

lemma star_close_Nil: "ms False (Seq (Star AnyChar) (Lit ''}'')) (p, [], c) = []"
  by simp

lemma star_close_Cons:
  "ms False (Seq (Star AnyChar) (Lit ''}'')) (p, x # xs, c)
     = ms False (Seq (Star AnyChar) (Lit ''}'')) (x # p, xs, c) @ ms False (Lit ''}'') (p, x # xs, c)"
  by simp

lemma close_none:
  "CHR ''}'' \<notin> set r \<Longrightarrow> ms False (Seq (Star AnyChar) (Lit ''}'')) (p, r, c) = []"
proof (induction r arbitrary: p)
  case Nil
  show ?case by (rule star_close_Nil)
next
  case (Cons x r)
  then have x: "x \<noteq> CHR ''}''" and r: "CHR ''}'' \<notin> set r" by auto
  have a: "ms False (Seq (Star AnyChar) (Lit ''}'')) (x # p, r, c) = []"
    by (rule Cons.IH [OF r])
  show ?case
    unfolding star_close_Cons lit_close a using x by simp
qed

lemma close_last:
  "CHR ''}'' \<notin> set b \<Longrightarrow>
   \<exists>tl. ms False (Seq (Star AnyChar) (Lit ''}'')) (p, a @ CHR ''}'' # b, c)
        = (CHR ''}'' # rev a @ p, b, c) # tl"
proof (induction a arbitrary: p)
  case Nil
  have "ms False (Seq (Star AnyChar) (Lit ''}'')) (p, CHR ''}'' # b, c) = [(CHR ''}'' # p, b, c)]"
    unfolding star_close_Cons lit_close close_none [OF Nil] by simp
  then show ?case by (simp del: ms.simps)
next
  case (Cons x a)
  from Cons.IH [OF Cons.prems, of "x # p"] obtain tl where
    "ms False (Seq (Star AnyChar) (Lit ''}'')) (x # p, a @ CHR ''}'' # b, c)
       = (CHR ''}'' # rev a @ x # p, b, c) # tl" by auto
  then have "ms False (Seq (Star AnyChar) (Lit ''}'')) (p, (x # a) @ CHR ''}'' # b, c)
       = (CHR ''}'' # rev (x # a) @ p, b, c) # (tl @ ms False (Lit ''}'') (p, x # a @ CHR ''}'' # b, c))"
    by (simp only: append_Cons star_close_Cons rev.simps append_assoc append_Nil)
  then show ?case by blast
qed

lemma ms_json_at_open:
  "ms False rx_json (p, CHR ''{'' # r, c) = ms False (Seq (Star AnyChar) (Lit ''}'')) (CHR ''{'' # p, r, c)"
  by (simp add: rx_json_def canon_def)

lemma ms_json_not_open: "x \<noteq> CHR ''{'' \<Longrightarrow> ms False rx_json (p, x # r, c) = []"
  by (simp add: rx_json_def canon_def)

lemma ms_json_nil: "ms False rx_json (p, [], c) = []"
  by (simp add: rx_json_def)

lemma search_Cons_fail:
  "ms i re (p, x # xs, []) = [] \<Longrightarrow> search i re p (x # xs) = search i re (x # p) xs"
  by simp

lemma search_Cons_hit:
  "ms i re (p, x # xs, []) = (p', r', c) # rest \<Longrightarrow>
   search i re p (x # xs) = Some (take (length (x # xs) - length r') (x # xs), c)"
  by simp

lemma search_Nil_fail: "ms i re (p, [], []) = [] \<Longrightarrow> search i re p [] = None"
  by simp

lemma search_json_no_close: "CHR ''}'' \<notin> set r \<Longrightarrow> search False rx_json p r = None"
proof (induction r arbitrary: p)
  case Nil
  show ?case by (rule search_Nil_fail) (rule ms_json_nil)
next
  case (Cons x r)
  then have r: "CHR ''}'' \<notin> set r" by simp
  have "ms False rx_json (p, x # r, []) = []"
  proof (cases "x = CHR ''{''")
    case True
    then show ?thesis by (simp only: ms_json_at_open close_none [OF r])
  next
    case False
    then show ?thesis by (rule ms_json_not_open)
  qed
  then have "search False rx_json p (x # r) = search False rx_json (x # p) r"
    by (rule search_Cons_fail)
  with Cons.IH [OF r] show ?case by simp
qed

lemma search_json_skip:
  "CHR ''{'' \<notin> set pre \<Longrightarrow> search False rx_json p (pre @ r) = search False rx_json (rev pre @ p) r"
proof (induction pre arbitrary: p)
  case Nil
  then show ?case by simp
next
  case (Cons x pre)
  then have x: "x \<noteq> CHR ''{''" and pre: "CHR ''{'' \<notin> set pre" by auto
  have "search False rx_json p (x # (pre @ r)) = search False rx_json (x # p) (pre @ r)"
    by (rule search_Cons_fail) (rule ms_json_not_open [OF x])
  also have "\<dots> = search False rx_json (rev pre @ x # p) r"
    by (rule Cons.IH [OF pre])
  finally show ?case by simp
qed

lemma json_span_found:
  assumes "CHR ''{'' \<notin> set pre" "CHR ''}'' \<notin> set post"
  shows "js_match False rx_json (pre @ ''{'' @ mid @ ''}'' @ post) = Some (''{'' @ mid @ ''}'', [])"
proof -
  from close_last [OF assms(2), of "CHR ''{'' # rev pre" mid "[]"] obtain tl where
    "ms False rx_json (rev pre, CHR ''{'' # mid @ CHR ''}'' # post, [])
       = (CHR ''}'' # rev mid @ CHR ''{'' # rev pre, post, []) # tl"
    by (auto simp only: ms_json_at_open)
  then have "search False rx_json (rev pre) (CHR ''{'' # mid @ CHR ''}'' # post)
      = Some (take (length (CHR ''{'' # mid @ CHR ''}'' # post) - length post)
                (CHR ''{'' # mid @ CHR ''}'' # post), [])"
    by (rule search_Cons_hit)
  then have "search False rx_json (rev pre) (CHR ''{'' # mid @ CHR ''}'' # post)
      = Some (''{'' @ mid @ ''}'', [])"
    by simp
  then show ?thesis
    using search_json_skip [OF assms(1), of "[]" "CHR ''{'' # mid @ CHR ''}'' # post"]
    by (simp add: js_match_def)
qed

lemma json_span_none:
  assumes "\<not> (\<exists>pre mid post. rtext = pre @ ''{'' @ mid @ ''}'' @ post)"
  shows "js_match False rx_json rtext = None"
proof (cases "CHR ''{'' \<in> set rtext")
  case False
  have "search False rx_json [] (rtext @ []) = search False rx_json (rev rtext @ []) []"
    by (rule search_json_skip [OF False])
  also have "\<dots> = None" by (rule search_Nil_fail) (rule ms_json_nil)
  finally show ?thesis by (simp add: js_match_def)
next
  case True
  then obtain pre r where t: "rtext = pre @ CHR ''{'' # r" and pre: "CHR ''{'' \<notin> set pre"
    by (auto dest: split_list_first)
  have nc: "CHR ''}'' \<notin> set r"
  proof
    assume "CHR ''}'' \<in> set r"
    then obtain mid post where "r = mid @ CHR ''}'' # post" by (auto dest: split_list)
    with t have "rtext = pre @ ''{'' @ mid @ ''}'' @ post" by simp
    with assms show False by blast
  qed
  have "ms False rx_json (rev pre, CHR ''{'' # r, []) = []"
    by (simp only: ms_json_at_open close_none [OF nc])
  then have "search False rx_json (rev pre) (CHR ''{'' # r) = search False rx_json (CHR ''{'' # rev pre) r"
    by (rule search_Cons_fail)
  also have "\<dots> = None" by (rule search_json_no_close [OF nc])
  finally have "search False rx_json (rev pre) (CHR ''{'' # r) = None" .
  then show ?thesis
    using search_json_skip [OF pre, of "[]" "CHR ''{'' # r"] by (simp add: js_match_def t)
qed

section \<open>Claim C7: locating the object in the reply\<close>

text \<open>
  Claim C7, as amended.  \<^verbatim>\<open>processSchedulePrompt\<close> takes the span of the reply from
  its first opening brace to its last closing brace and parses exactly that span: the
  outcome is the one of a reply that consists of the span alone, with \<^verbatim>\<open>JSON.parse\<close>
  answering as it does on the span.  A reply in which no opening brace is followed by
  a closing brace fails with the message \<^verbatim>\<open>No valid JSON found in AI response\<close>.
\<close>

theorem span_first_open_to_last_close:
  "(CHR ''{'' \<notin> set pre \<and> CHR ''}'' \<notin> set post \<longrightarrow>
      js_match False rx_json (pre @ ''{'' @ mid @ ''}'' @ post) = Some (''{'' @ mid @ ''}'', [])
      \<and> processSchedulePrompt parse (Inr (pre @ ''{'' @ mid @ ''}'' @ post)) p tza clock
          = (case parse (''{'' @ mid @ ''}'') of
               Inl e \<Rightarrow> failure e
             | Inr d \<Rightarrow> processSchedulePrompt (\<lambda>s. Inr d) (Inr ''{}'') p tza clock))
   \<and> (\<not> (\<exists>pre mid post. rtext = pre @ ''{'' @ mid @ ''}'' @ post) \<longrightarrow>
        processSchedulePrompt parse (Inr rtext) p tza clock
          = \<lparr>success = False, data = None, error = Some ''No valid JSON found in AI response''\<rparr>)"
proof (intro conjI impI)
  assume a: "CHR ''{'' \<notin> set pre \<and> CHR ''}'' \<notin> set post"
  then show m: "js_match False rx_json (pre @ ''{'' @ mid @ ''}'' @ post) = Some (''{'' @ mid @ ''}'', [])"
    by (intro json_span_found) simp_all
  have e: "js_match False rx_json ''{}'' = Some (''{}'', [])" by code_simp
  show "processSchedulePrompt parse (Inr (pre @ ''{'' @ mid @ ''}'' @ post)) p tza clock
          = (case parse (''{'' @ mid @ ''}'') of
               Inl e \<Rightarrow> failure e
             | Inr d \<Rightarrow> processSchedulePrompt (\<lambda>s. Inr d) (Inr ''{}'') p tza clock)"
    using m e by (simp add: processSchedulePrompt_def split: sum.splits)
next
  assume "\<not> (\<exists>pre mid post. rtext = pre @ ''{'' @ mid @ ''}'' @ post)"
  then have "js_match False rx_json rtext = None" by (rule json_span_none)
  then show "processSchedulePrompt parse (Inr rtext) p tza clock
          = \<lparr>success = False, data = None, error = Some ''No valid JSON found in AI response''\<rparr>"
    by (simp add: processSchedulePrompt_def failure_def)
qed

theorem span_first_open_to_last_close_witness:
  "js_match False rx_json ''Sure! {a} ok'' = Some (''{a}'', [])
   \<and> processSchedulePrompt (\<lambda>s. Inl NonError) (Inr ''no object here'') ''do x'' 0 1705362600000
     = \<lparr>success = False, data = None, error = Some ''No valid JSON found in AI response''\<rparr>"
proof -
  have a: "CHR ''{'' \<notin> set ''Sure! '' \<and> CHR ''}'' \<notin> set '' ok''" by simp
  have b: "\<not> (\<exists>pre mid post. ''no object here'' = pre @ ''{'' @ mid @ ''}'' @ post)"
  proof
    assume "\<exists>pre mid post. ''no object here'' = pre @ ''{'' @ mid @ ''}'' @ post"
    then obtain pre mid post where "''no object here'' = pre @ ''{'' @ mid @ ''}'' @ post" by blast
    then have "set ''no object here'' = set (pre @ ''{'' @ mid @ ''}'' @ post)" by (rule arg_cong)
    then have "CHR ''{'' \<in> set ''no object here''" by simp
    then show False by simp
  qed
  note t1 = span_first_open_to_last_close [where pre = "''Sure! ''" and post = "'' ok''" and mid = "''a''",
      THEN conjunct1, THEN mp, OF a, THEN conjunct1]
  note t2 = span_first_open_to_last_close [where rtext = "''no object here''" and parse = "\<lambda>s. Inl NonError"
      and p = "''do x''" and tza = 0 and clock = 1705362600000,
      THEN conjunct2, THEN mp, OF b]
  from t1 t2 show ?thesis by simp
qed

text \<open>
  The claim as the specification states it, that the first balanced object is the one
  parsed when further text follows, fails: for the reply \<^verbatim>\<open>{a} and {b}\<close> the span is
  the whole reply, so a parser that accepts the first object \<^verbatim>\<open>{a}\<close> alone is asked
  about \<^verbatim>\<open>{a} and {b}\<close>, and the call fails with the parser's error.
\<close>

theorem span_first_open_to_last_close_counterexample:
  "js_match False rx_json ''{a} and {b}'' = Some (''{a} and {b}'', [])
   \<and> processSchedulePrompt
        (\<lambda>s. if s = ''{a}''
              then Inr [(''type'', JStr ''task''), (''title'', JStr ''x''),
                        (''date'', JStr ''2024-01-15''), (''time'', JStr ''09:00'')]
              else Inl (SyntaxError ''Unexpected non-whitespace character after JSON''))
        (Inr ''{a} and {b}'') ''do x'' 0 1705362600000
     = \<lparr>success = False, data = None,
        error = Some ''Unexpected non-whitespace character after JSON''\<rparr>"
  by code_simp

section \<open>A match of an extraction pattern is not empty\<close>

lemma star_cls_length: "(p', r') \<in> set (star_cls k p r) \<Longrightarrow> length r' \<le> length r"
proof (induction r arbitrary: p)
  case Nil
  then show ?case by simp
next
  case (Cons a r)
  then have "(p', r') \<in> set (star_cls k (a # p) r) \<or> r' = a # r"
    by (auto split: if_splits)
  then show ?case
  proof
    assume "(p', r') \<in> set (star_cls k (a # p) r)"
    from Cons.IH [OF this] show ?thesis by simp
  next
    assume "r' = a # r" then show ?thesis by simp
  qed
qed

lemma ms_Plus_length:
  assumes "(p', r', c') \<in> set (ms i (Plus k) (p, r, c))"
  shows "length r' < length r"
proof (cases r)
  case Nil
  with assms show ?thesis by simp
next
  case (Cons x xs)
  with assms have "(p', r') \<in> set (star_cls k (x # p) xs)"
    by (auto split: if_splits)
  from star_cls_length [OF this] Cons show ?thesis by simp
qed

lemma ms_Seq_mem:
  "s2 \<in> set (ms i (Seq a b) st) \<Longrightarrow> \<exists>s1\<in>set (ms i a st). s2 \<in> set (ms i b s1)"
  by auto

lemma ms_WordB_mem: "s1 \<in> set (ms i WordB st) \<Longrightarrow> s1 = st"
  by (cases st) (auto split: if_splits)

lemma rep_cls_length: "(p', r') \<in> set (rep_cls n k p r) \<Longrightarrow> length r' \<le> length r"
  by (induction n k p r rule: rep_cls.induct) (auto split: if_splits)

lemma ms_length: "(p', r', c') \<in> set (ms i re (p, r, c)) \<Longrightarrow> length r' \<le> length r"
proof (induction re arbitrary: p r c p' r' c')
  case (Lit s)
  then show ?case by (auto split: if_splits)
next
  case (Plus k)
  from ms_Plus_length [OF Plus] show ?case by simp
next
  case (Star k)
  then show ?case by (auto dest!: star_cls_length)
next
  case (Rep n k)
  then show ?case by (auto dest!: rep_cls_length)
next
  case (Seq a b)
  from Seq.prems obtain p1 r1 c1 where
    1: "(p1, r1, c1) \<in> set (ms i a (p, r, c))" and 2: "(p', r', c') \<in> set (ms i b (p1, r1, c1))"
    by auto
  from Seq.IH(1) [OF 1] Seq.IH(2) [OF 2] show ?case by simp
next
  case (Alt a b)
  then show ?case by auto
next
  case (Grp a)
  then show ?case by auto
next
  case WordB
  then show ?case by (auto split: if_splits)
next
  case Bol
  then show ?case by (auto split: if_splits)
next
  case Eol
  then show ?case by (auto split: if_splits)
qed

lemma ms_in_consumes:
  assumes "(p', r', c') \<in> set (ms i (Seq WordB (Seq (Lit ''in'') x)) (p, r, c))"
  shows "length r' < length r"
proof -
  from ms_Seq_mem [OF assms] obtain s1 where
    "s1 \<in> set (ms i WordB (p, r, c))" and a: "(p', r', c') \<in> set (ms i (Seq (Lit ''in'') x) s1)"
    by blast
  then have "s1 = (p, r, c)" by (auto dest: ms_WordB_mem)
  with ms_Seq_mem [OF a] obtain p1 r1 c1 where
    1: "(p1, r1, c1) \<in> set (ms i (Lit ''in'') (p, r, c))" and 2: "(p', r', c') \<in> set (ms i x (p1, r1, c1))"
    by auto
  from 1 have "length r1 < length r" by (auto split: if_splits)
  with ms_length [OF 2] show ?thesis by simp
qed

lemma ms_digits_consumes:
  assumes "(p', r', c') \<in> set (ms i (Seq WordB (Seq (Plus Digit) x)) (p, r, c))"
  shows "length r' < length r"
proof -
  from ms_Seq_mem [OF assms] obtain s1 where
    "s1 \<in> set (ms i WordB (p, r, c))" and a: "(p', r', c') \<in> set (ms i (Seq (Plus Digit) x) s1)"
    by blast
  then have "s1 = (p, r, c)" by (auto dest: ms_WordB_mem)
  with a have "(p', r', c') \<in> set (ms i (Seq (Plus Digit) x) (p, r, c))" by (simp del: ms.simps)
  from ms_Seq_mem [OF this] obtain s2 where
    m1: "s2 \<in> set (ms i (Plus Digit) (p, r, c))" and m2: "(p', r', c') \<in> set (ms i x s2)"
    by blast
  obtain p1 r1 c1 where s2: "s2 = (p1, r1, c1)" by (cases s2) auto
  note 1 = m1 [unfolded s2] and 2 = m2 [unfolded s2]
  from ms_Plus_length [OF 1] ms_length [OF 2] show ?thesis by simp
qed

lemma search_nonempty:
  assumes "\<And>p r c p' r' c'. (p', r', c') \<in> set (ms i re (p, r, c)) \<Longrightarrow> length r' < length r"
  shows "search i re p s = Some (m0, caps) \<Longrightarrow> m0 \<noteq> []"
proof (induction s arbitrary: p)
  case Nil
  then show ?case
    using assms [of _ _ _ p "[]" "[]"] by (cases "ms i re (p, [], [])") (auto simp del: ms.simps)
next
  case (Cons x s)
  show ?case
  proof (cases "ms i re (p, x # s, [])")
    case Nil
    with Cons show ?thesis by (simp del: ms.simps)
  next
    case (Cons st rest)
    obtain p' r' c' where st: "st = (p', r', c')" by (cases st) auto
    with Cons have "(p', r', c') \<in> set (ms i re (p, x # s, []))" by simp
    from assms [OF this] have "length r' < length (x # s)" .
    with Cons st Cons.prems show ?thesis by (auto simp del: ms.simps)
  qed
qed

lemma extract_nonempty: "extractRelativeTimeExpression p = Some e \<Longrightarrow> e \<noteq> []"
proof -
  assume a: "extractRelativeTimeExpression p = Some e"
  have 1: "m0 \<noteq> []" if "js_match True rx_in_n_unit p = Some (m0, caps)" for m0 caps
  proof (rule search_nonempty [where i = True and re = rx_in_n_unit and p = "[]" and s = p and caps = caps])
    show "length r' < length r" if "(p', r', c') \<in> set (ms True rx_in_n_unit (q, r, c))" for q r c p' r' c'
      using that unfolding rx_in_n_unit_def by (rule ms_in_consumes)
    show "search True rx_in_n_unit [] p = Some (m0, caps)"
      using that by (simp add: js_match_def)
  qed
  have 2: "m0 \<noteq> []" if "js_match True rx_n_unit_from_now p = Some (m0, caps)" for m0 caps
  proof (rule search_nonempty [where i = True and re = rx_n_unit_from_now and p = "[]" and s = p and caps = caps])
    show "length r' < length r" if "(p', r', c') \<in> set (ms True rx_n_unit_from_now (q, r, c))" for q r c p' r' c'
      using that unfolding rx_n_unit_from_now_def by (rule ms_digits_consumes)
    show "search True rx_n_unit_from_now [] p = Some (m0, caps)"
      using that by (simp add: js_match_def)
  qed
  from a show ?thesis
    unfolding extractRelativeTimeExpression_def
    by (auto split: option.splits dest: 1 2)
qed

section \<open>Claim C8: the override of date and time\<close>

text \<open>
  Claim C8, as amended.  Let \<^verbatim>\<open>hasRelativeTimeExpression\<close> hold of the prompt and let
  \<^verbatim>\<open>extractRelativeTimeExpression\<close> yield a phrase.  If \<^verbatim>\<open>calculateRelativeTime\<close> returns
  a result for the phrase, \<^verbatim>\<open>postProcessScheduleData\<close> sets the date and the time of
  the candidate to that result, whatever values the model had produced, and leaves
  every other property of the candidate as it was.  If \<^verbatim>\<open>calculateRelativeTime\<close>
  throws, \<^verbatim>\<open>postProcessScheduleData\<close> throws the same error and no candidate is
  returned.  For every other prompt the candidate is returned untouched, so this is
  the only mutation.
\<close>

theorem post_process_overwrites:
  "(hasRelativeTimeExpression p \<and> extractRelativeTimeExpression p = Some e \<longrightarrow>
      (case calculateRelativeTime e tza (Date clock) of
         Inl err \<Rightarrow> postProcessScheduleData d p tza clock = Inl err
       | Inr ct \<Rightarrow>
           (\<exists>d'. postProcessScheduleData d p tza clock = Inr d'
              \<and> get_prop d' ''date'' = Some (JStr (date ct))
              \<and> get_prop d' ''time'' = Some (JStr (time ct))
              \<and> (\<forall>k. k \<noteq> ''date'' \<and> k \<noteq> ''time'' \<longrightarrow> get_prop d' k = get_prop d k))))
   \<and> ((\<not> hasRelativeTimeExpression p \<or> extractRelativeTimeExpression p = None) \<longrightarrow>
        postProcessScheduleData d p tza clock = Inr d)"
proof (intro conjI impI)
  assume a: "hasRelativeTimeExpression p \<and> extractRelativeTimeExpression p = Some e"
  then have e: "e \<noteq> []" by (auto dest: extract_nonempty)
  show "case calculateRelativeTime e tza (Date clock) of
         Inl err \<Rightarrow> postProcessScheduleData d p tza clock = Inl err
       | Inr ct \<Rightarrow>
           (\<exists>d'. postProcessScheduleData d p tza clock = Inr d'
              \<and> get_prop d' ''date'' = Some (JStr (date ct))
              \<and> get_prop d' ''time'' = Some (JStr (time ct))
              \<and> (\<forall>k. k \<noteq> ''date'' \<and> k \<noteq> ''time'' \<longrightarrow> get_prop d' k = get_prop d k))"
  proof (cases "calculateRelativeTime e tza (Date clock)")
    case (Inl err)
    with a e show ?thesis by (simp add: postProcessScheduleData_def)
  next
    case (Inr ct)
    let ?d' = "set_prop (set_prop d ''date'' (JStr (date ct))) ''time'' (JStr (time ct))"
    have 1: "postProcessScheduleData d p tza clock = Inr ?d'"
      using a e Inr by (simp add: postProcessScheduleData_def)
    have 2: "get_prop ?d' ''date'' = Some (JStr (date ct))"
      by (simp add: get_set_prop)
    have 3: "get_prop ?d' ''time'' = Some (JStr (time ct))"
      by (simp add: get_set_prop)
    have 4: "\<forall>k. k \<noteq> ''date'' \<and> k \<noteq> ''time'' \<longrightarrow> get_prop ?d' k = get_prop d k"
      by (simp add: get_set_prop)
    from 1 2 3 4 have "\<exists>d'. postProcessScheduleData d p tza clock = Inr d'
              \<and> get_prop d' ''date'' = Some (JStr (date ct))
              \<and> get_prop d' ''time'' = Some (JStr (time ct))
              \<and> (\<forall>k. k \<noteq> ''date'' \<and> k \<noteq> ''time'' \<longrightarrow> get_prop d' k = get_prop d k)"
      by blast
    with Inr show ?thesis by simp
  qed
next
  assume "\<not> hasRelativeTimeExpression p \<or> extractRelativeTimeExpression p = None"
  then show "postProcessScheduleData d p tza clock = Inr d"
    by (auto simp add: postProcessScheduleData_def)
qed

theorem post_process_overwrites_witness:
  "(\<exists>d'. postProcessScheduleData
            [(''type'', JStr ''reminder''), (''title'', JStr ''Call Sarah''),
             (''date'', JStr ''2024-01-15''), (''time'', JStr ''09:00'')]
            ''remind me to call Sarah in 30 minutes'' 0 1705308600000 = Inr d'
       \<and> get_prop d' ''date'' = Some (JStr ''2024-01-15'')
       \<and> get_prop d' ''time'' = Some (JStr ''09:20'')
       \<and> get_prop d' ''title'' = Some (JStr ''Call Sarah''))
   \<and> postProcessScheduleData
        [(''type'', JStr ''reminder''), (''title'', JStr ''Call Sarah''),
         (''date'', JStr ''2024-01-15''), (''time'', JStr ''09:00'')]
        ''remind me to call Sarah tomorrow'' 0 1705308600000
      = Inr [(''type'', JStr ''reminder''), (''title'', JStr ''Call Sarah''),
             (''date'', JStr ''2024-01-15''), (''time'', JStr ''09:00'')]"
proof -
  let ?d = "[(''type'', JStr ''reminder''), (''title'', JStr ''Call Sarah''),
             (''date'', JStr ''2024-01-15''), (''time'', JStr ''09:00'')]"
  let ?ct = "\<lparr>date = ''2024-01-15'', time = ''09:20''\<rparr>"
  have h1: "hasRelativeTimeExpression ''remind me to call Sarah in 30 minutes''" by code_simp
  have h2: "extractRelativeTimeExpression ''remind me to call Sarah in 30 minutes'' = Some ''in 30 minutes''"
    by code_simp
  have c: "calculateRelativeTime ''in 30 minutes'' 0 (Date 1705308600000) = Inr ?ct" by code_simp
  have n: "extractRelativeTimeExpression ''remind me to call Sarah tomorrow'' = None" by code_simp
  have t: "get_prop ?d ''title'' = Some (JStr ''Call Sarah'')" by (simp add: get_prop_def)
  note T1 = post_process_overwrites [where p = "''remind me to call Sarah in 30 minutes''"
      and e = "''in 30 minutes''" and tza = 0 and clock = 1705308600000 and d = ?d,
      THEN conjunct1, THEN mp, OF conjI [OF h1 h2], unfolded c sum.case]
  from T1 obtain d' where
    P: "postProcessScheduleData ?d ''remind me to call Sarah in 30 minutes'' 0 1705308600000 = Inr d'
        \<and> get_prop d' ''date'' = Some (JStr (date ?ct))
        \<and> get_prop d' ''time'' = Some (JStr (time ?ct))
        \<and> (\<forall>k. k \<noteq> ''date'' \<and> k \<noteq> ''time'' \<longrightarrow> get_prop d' k = get_prop ?d k)" ..
  note p1 = P [THEN conjunct1]
  note p2 = P [THEN conjunct2, THEN conjunct1, simplified]
  note p3 = P [THEN conjunct2, THEN conjunct2, THEN conjunct1, simplified]
  note p4 = P [THEN conjunct2, THEN conjunct2, THEN conjunct2, rule_format]
  have k: "''title'' \<noteq> ''date'' \<and> ''title'' \<noteq> ''time''" by simp
  have p5: "get_prop d' ''title'' = Some (JStr ''Call Sarah'')"
    unfolding p4 [OF k] by (rule t)
  have first: "\<exists>d'. postProcessScheduleData ?d ''remind me to call Sarah in 30 minutes'' 0 1705308600000 = Inr d'
       \<and> get_prop d' ''date'' = Some (JStr ''2024-01-15'')
       \<and> get_prop d' ''time'' = Some (JStr ''09:20'')
       \<and> get_prop d' ''title'' = Some (JStr ''Call Sarah'')"
    by (rule exI [of _ d']) (rule conjI [OF p1 conjI [OF p2 conjI [OF p3 p5]]])
  have second: "postProcessScheduleData ?d ''remind me to call Sarah tomorrow'' 0 1705308600000 = Inr ?d"
    by (rule post_process_overwrites [THEN conjunct2, THEN mp]) (rule disjI2 [OF n])
  from first second show ?thesis by (rule conjI)
qed

text \<open>
  The claim as the specification states it, that date and time are overwritten for
  every such prompt, fails: for the prompt \<^verbatim>\<open>remind me in 300000 years\<close> a phrase is
  detected and extracted, the year leaves the range of \<^verbatim>\<open>Date\<close>, and the function
  throws instead of overwriting.
\<close>

theorem post_process_overwrites_counterexample:
  "hasRelativeTimeExpression ''remind me in 300000 years''
   \<and> extractRelativeTimeExpression ''remind me in 300000 years'' = Some ''in 300000 years''
   \<and> postProcessScheduleData
        [(''type'', JStr ''reminder''), (''title'', JStr ''Call Sarah''),
         (''date'', JStr ''2024-01-15''), (''time'', JStr ''09:00'')]
        ''remind me in 300000 years'' 0 1705308600000
      = Inl (RangeError ''Invalid time value'')"
  by code_simp

end
